theory Spec2Isabelle
  imports Main
begin

section \<open>The progress window of persepolis/scripts/progress.py\<close>

text \<open>
  The module is an event-driven controller: every method of \<open>ProgressWindow\<close> reads the
  window's fields and widgets, and talks to collaborators that live outside the file (the
  \<open>download\<close> module that speaks to aria2, the two data bases of the main window, the
  notification helper, Qt's dialogs, \<open>sudo\<close>). The embedding keeps the window as a record,
  passes it explicitly, and records every call to a collaborator, in order, in a trace of
  events. What a collaborator answers is not decided by this file, so the answers are the
  fields of an environment record and every theorem holds for all of them.
\<close>

subsection \<open>Python values\<close>

datatype pyval = PyNone | PyBool bool | PyInt int | PyStr string

text \<open>Truth value testing, as \<open>not(answer)\<close> uses it.\<close>

fun truthy :: "pyval \<Rightarrow> bool" where
  "truthy PyNone = False"
| "truthy (PyBool b) = b"
| "truthy (PyInt i) = (i \<noteq> 0)"
| "truthy (PyStr s) = (s \<noteq> [])"

definition digit_char :: "nat \<Rightarrow> char" where
  "digit_char n = ''0123456789'' ! n"

fun str_nat :: "nat \<Rightarrow> string" where
  "str_nat n = (if n < 10 then [digit_char n] else str_nat (n div 10) @ [digit_char (n mod 10)])"

definition str_int :: "int \<Rightarrow> string" where
  "str_int i = (if i < 0 then CHR ''-'' # str_nat (nat (- i)) else str_nat (nat i))"

text \<open>The builtin \<open>str\<close> on the values above.\<close>

fun py_str :: "pyval \<Rightarrow> string" where
  "py_str PyNone = ''None''"
| "py_str (PyBool b) = (if b then ''True'' else ''False'')"
| "py_str (PyInt i) = str_int i"
| "py_str (PyStr s) = s"

text \<open>A dictionary literal with string values, in the order it is written.\<close>

type_synonym pydict = "(string \<times> string) list"

datatype error = TypeError | KeyError | IndexError | ValueError

subsection \<open>Events: the calls that leave the module\<close>

record ShutDownThread =
  thread_gid :: string
  thread_password :: "string option"

datatype event =
    DownloadUnpause string
  | DownloadPause string
  | DownloadStop string
  | LimitSpeed string string
  | Aria2Version
  | Aria2Disconnected
  | NotifySend string string int string
  | UpdateSingleTable pydict
  | UpdateAddLinkTable "pydict list"
  | SearchGidInAddLinkTable string
  | GetText string string
  | SudoCheck string
  | ThreadStart ShutDownThread
  | SetDefaultLocale string
  | InstallTranslator string
  | SettingsSetValue string "int \<times> int"
  | SettingsSync

subsection \<open>The window, the main window's thread pool and the trace\<close>

text \<open>
  The widgets come from \<open>ProgressWindow_Ui\<close>, which is not part of the file: a check box
  is the flag its setter stored last, the spin box and \<open>after_comboBox\<close> hold what the
  widget makes of the value passed to the setter, and the type \<open>'f\<close> of the spin box's value (a Python
  float) stays a parameter. \<open>status\<close> is \<open>None\<close> after the constructor and a string once
  the main window has written it. The \<open>connected\<close> fields say whether the
  constructor has already connected the signal to its slot.
\<close>

record 'f ProgressWindow =
  gid :: string
  status :: "string option"
  download_progressBar :: int
  limit_frame_enabled :: bool
  limit_pushButton_enabled :: bool
  limit_checkBox_checked :: bool
  limit_spinBox_value :: 'f
  limit_comboBox_text :: string
  after_frame_enabled :: bool
  after_pushButton_enabled :: bool
  after_checkBox_checked :: bool
  after_comboBox_index :: int
  limit_checkBox_connected :: bool
  after_checkBox_connected :: bool
  after_comboBox_connected :: bool
  limit_comboBox_connected :: bool
  limit_spinBox_connected :: bool
  window_size :: "int \<times> int"
  window_pos :: "int \<times> int"
  window_visible :: bool
  resume_icon :: string
  pause_icon :: string
  stop_icon :: string

record 'f world =
  window :: "'f ProgressWindow"
  threadPool :: "ShutDownThread list"
  trace :: "event list"

text \<open>
  What the collaborators answer. Every call to a collaborator is taken to return:
  \<open>sudo_wait e n p\<close> is the exit status of the \<open>sudo\<close> check that dialog \<open>n\<close> of a call
  starts with the password \<open>p\<close>, and \<open>getText e n\<close> is the text and the \<open>ok\<close> flag that
  dialog \<open>n\<close> returns. The two widgets the constructor writes numbers into belong to
  \<open>ProgressWindow_Ui\<close>, whose ranges and items are not in the file:
  \<open>limit_spinBox_holds e v\<close> is the value the spin box holds after \<open>setValue(v)\<close> (Qt bounds
  it to the range and rounds it to the decimals of the widget), and
  \<open>after_comboBox_holds e i\<close> is the index the combo box holds after \<open>setCurrentIndex(i)\<close>
  (Qt leaves \<open>-1\<close> when the box has no item \<open>i\<close>).
\<close>

record 'f env =
  os_type :: string
  OS_WINDOWS :: string
  downloadUnpause :: "string \<Rightarrow> pyval"
  downloadPause :: "string \<Rightarrow> pyval"
  downloadStop :: "string \<Rightarrow> pyval"
  aria2Version :: pyval
  translate :: "string \<Rightarrow> string \<Rightarrow> string"
  getText :: "nat \<Rightarrow> string \<times> bool"
  sudo_wait :: "nat \<Rightarrow> string \<Rightarrow> int"
  float_of_str :: "string \<Rightarrow> 'f option"
  str_of_float :: "'f \<Rightarrow> string"
  limit_spinBox_holds :: "'f \<Rightarrow> 'f"
  after_comboBox_holds :: "int \<Rightarrow> int"
  searchGidInAddLinkTable :: "string \<Rightarrow> (string \<times> pyval) list option"
  settings_locale :: pyval
  translator_load :: "string \<Rightarrow> bool"
  settings_size :: "(int \<times> int) option"
  settings_position :: "(int \<times> int) option"

definition emit :: "event list \<Rightarrow> 'f world \<Rightarrow> 'f world" where
  "emit evs w = w\<lparr>trace := trace w @ evs\<rparr>"

definition upd :: "('f ProgressWindow \<Rightarrow> 'f ProgressWindow) \<Rightarrow> 'f world \<Rightarrow> 'f world" where
  "upd f w = w\<lparr>window := f (window w)\<rparr>"

subsection \<open>The handlers\<close>

definition warning_timeout :: int where
  "warning_timeout = 10000"

definition resumePushButtonPressed :: "'f env \<Rightarrow> 'f world \<Rightarrow> 'f world" where
  "resumePushButtonPressed e w =
     (if status (window w) = Some ''paused'' then
        (let answer = downloadUnpause e (gid (window w));
             w = emit [DownloadUnpause (gid (window w))] w
         in if \<not> truthy answer then
              (let version_answer = aria2Version e;
                   w = emit [Aria2Version] w
               in if version_answer = PyStr ''did not respond'' then
                    emit [Aria2Disconnected,
                          NotifySend (translate e ''progress_src_ui_tr'' ''Aria2 disconnected!'')
                            (translate e ''progress_src_ui_tr''
                               ''Persepolis is trying to connect! be patient!'')
                            warning_timeout ''warning''] w
                  else
                    emit [NotifySend (translate e ''progress_src_ui_tr'' ''Aria2 did not respond!'')
                            (translate e ''progress_src_ui_tr'' ''Please try again.'')
                            warning_timeout ''warning''] w)
            else w)
      else w)"

definition pausePushButtonPressed :: "'f env \<Rightarrow> 'f world \<Rightarrow> 'f world" where
  "pausePushButtonPressed e w =
     (if status (window w) = Some ''downloading'' then
        (let answer = downloadPause e (gid (window w));
             w = emit [DownloadPause (gid (window w))] w
         in if \<not> truthy answer then
              (let version_answer = aria2Version e;
                   w = emit [Aria2Version] w
               in if version_answer = PyStr ''did not respond'' then
                    emit [Aria2Disconnected,
                          DownloadStop (gid (window w)),
                          NotifySend ''Aria2 disconnected!''
                            ''Persepolis is trying to connect! be patient!''
                            warning_timeout ''warning''] w
                  else
                    emit [NotifySend (translate e ''progress_src_ui_tr'' ''Aria2 did not respond!'')
                            (translate e ''progress_src_ui_tr'' ''Try again!'')
                            warning_timeout ''critical''] w)
            else w)
      else w)"

definition stopPushButtonPressed :: "'f env \<Rightarrow> 'f world \<Rightarrow> 'f world" where
  "stopPushButtonPressed e w =
     (let download_dict = [(''gid'', gid (window w)), (''shutdown'', ''canceled'')];
          w = emit [UpdateSingleTable download_dict] w;
          answer = downloadStop e (gid (window w));
          w = emit [DownloadStop (gid (window w))] w
      in if answer = PyStr ''None'' then
           (let version_answer = aria2Version e;
                w = emit [Aria2Version] w
            in if version_answer = PyStr ''did not respond'' then
                 emit [Aria2Disconnected,
                       NotifySend (translate e ''progress_src_ui_tr'' ''Aria2 disconnected!'')
                         (translate e ''progress_src_ui_tr''
                            ''Persepolis is trying to connect! be patient!'')
                         warning_timeout ''warning''] w
               else w)
         else w)"

definition limitCheckBoxToggled :: "'f world \<Rightarrow> 'f world" where
  "limitCheckBoxToggled w =
     (if limit_checkBox_checked (window w) then
        upd (\<lambda>s. s\<lparr>limit_frame_enabled := True, limit_pushButton_enabled := True\<rparr>) w
      else
        (let w = upd (\<lambda>s. s\<lparr>limit_frame_enabled := False\<rparr>) w
         in if status (window w) \<noteq> Some ''scheduled'' then
              emit [LimitSpeed (gid (window w)) ''0''] w
            else
              (let add_link_dictionary = [(''gid'', gid (window w)), (''limit_value'', ''0'')]
               in emit [UpdateAddLinkTable [add_link_dictionary]] w)))"

definition limitComboBoxChanged :: "'f world \<Rightarrow> 'f world" where
  "limitComboBoxChanged w = upd (\<lambda>s. s\<lparr>limit_pushButton_enabled := True\<rparr>) w"

definition afterComboBoxChanged :: "'f world \<Rightarrow> 'f world" where
  "afterComboBoxChanged w = upd (\<lambda>s. s\<lparr>after_pushButton_enabled := True\<rparr>) w"

definition afterCheckBoxToggled :: "'f world \<Rightarrow> 'f world" where
  "afterCheckBoxToggled w =
     (if after_checkBox_checked (window w) then
        upd (\<lambda>s. s\<lparr>after_frame_enabled := True\<rparr>) w
      else
        (let w = upd (\<lambda>s. s\<lparr>after_frame_enabled := False\<rparr>) w;
             download_dict = [(''gid'', gid (window w)), (''shutdown'', ''canceled'')]
         in emit [UpdateSingleTable download_dict] w))"

definition limitPushButtonPressed :: "'f env \<Rightarrow> 'f world \<Rightarrow> 'f world" where
  "limitPushButtonPressed e w =
     (let w = upd (\<lambda>s. s\<lparr>limit_pushButton_enabled := False\<rparr>) w;
          limit_value =
            (if limit_comboBox_text (window w) = ''KiB/s''
             then str_of_float e (limit_spinBox_value (window w)) @ ''K''
             else str_of_float e (limit_spinBox_value (window w)) @ ''M'')
      in if status (window w) \<noteq> Some ''scheduled'' then
           emit [LimitSpeed (gid (window w)) limit_value] w
         else
           (let add_link_dictionary = [(''gid'', gid (window w)), (''limit_value'', limit_value)]
            in emit [UpdateAddLinkTable [add_link_dictionary]] w))"

subsection \<open>Setters that emit a signal\<close>

text \<open>
  Qt emits \<open>toggled\<close>, \<open>valueChanged\<close> and \<open>currentIndexChanged\<close> when the stored value
  really changes, and a connected slot runs before the setter returns.
\<close>

definition limit_checkBox_setChecked :: "bool \<Rightarrow> 'f world \<Rightarrow> 'f world" where
  "limit_checkBox_setChecked b w =
     (if limit_checkBox_checked (window w) = b then w
      else (let w = upd (\<lambda>s. s\<lparr>limit_checkBox_checked := b\<rparr>) w
            in if limit_checkBox_connected (window w) then limitCheckBoxToggled w else w))"

definition after_checkBox_setChecked :: "bool \<Rightarrow> 'f world \<Rightarrow> 'f world" where
  "after_checkBox_setChecked b w =
     (if after_checkBox_checked (window w) = b then w
      else (let w = upd (\<lambda>s. s\<lparr>after_checkBox_checked := b\<rparr>) w
            in if after_checkBox_connected (window w) then afterCheckBoxToggled w else w))"

definition limit_spinBox_setValue :: "'f env \<Rightarrow> 'f \<Rightarrow> 'f world \<Rightarrow> 'f world" where
  "limit_spinBox_setValue e v w =
     (if limit_spinBox_value (window w) = limit_spinBox_holds e v then w
      else (let w = upd (\<lambda>s. s\<lparr>limit_spinBox_value := limit_spinBox_holds e v\<rparr>) w
            in if limit_spinBox_connected (window w) then limitComboBoxChanged w else w))"

definition limit_comboBox_setCurrentText :: "string \<Rightarrow> 'f world \<Rightarrow> 'f world" where
  "limit_comboBox_setCurrentText t w =
     (if limit_comboBox_text (window w) = t then w
      else (let w = upd (\<lambda>s. s\<lparr>limit_comboBox_text := t\<rparr>) w
            in if limit_comboBox_connected (window w) then limitComboBoxChanged w else w))"

definition after_comboBox_setCurrentIndex :: "'f env \<Rightarrow> int \<Rightarrow> 'f world \<Rightarrow> 'f world" where
  "after_comboBox_setCurrentIndex e i w =
     (if after_comboBox_index (window w) = after_comboBox_holds e i then w
      else (let w = upd (\<lambda>s. s\<lparr>after_comboBox_index := after_comboBox_holds e i\<rparr>) w
            in if after_comboBox_connected (window w) then afterComboBoxChanged w else w))"

subsection \<open>Shutdown after download\<close>

definition wrong_password_label :: string where
  "wrong_password_label = ''Wrong Password!'' @ [CHR 0x0A] @ ''Please try again.''"

text \<open>
  The loop \<open>while answer != 0\<close>. Its variables are \<open>passwd\<close>, \<open>ok\<close> and \<open>answer\<close>; \<open>n\<close>
  counts the dialogs opened so far in this call, so that the environment can answer each
  one differently. A run that never leaves the loop is the value \<open>None\<close>.
\<close>

partial_function (option) wrong_password_loop ::
  "'f env \<Rightarrow> nat \<Rightarrow> string \<Rightarrow> bool \<Rightarrow> int \<Rightarrow> event list \<Rightarrow> (string \<times> bool \<times> event list) option"
where
  "wrong_password_loop e n passwd ok answer tr =
     (if answer \<noteq> 0 then
        (let r = getText e n;
             tr = tr @ [GetText ''PassWord'' wrong_password_label]
         in if snd r then
              wrong_password_loop e (Suc n) (fst r) (snd r) (sudo_wait e n (fst r))
                (tr @ [SudoCheck (fst r)])
            else Some (fst r, False, tr))
      else Some (passwd, ok, tr))"

declare wrong_password_loop.simps [code]

text \<open>Create the thread, append it to the pool of the main window, start the last one.\<close>

definition start_ShutDownThread :: "string option \<Rightarrow> 'f world \<Rightarrow> 'f world" where
  "start_ShutDownThread password w =
     (let shutdown_enable = \<lparr>thread_gid = gid (window w), thread_password = password\<rparr>;
          w = w\<lparr>threadPool := threadPool w @ [shutdown_enable]\<rparr>
      in emit [ThreadStart (last (threadPool w))] w)"

definition afterPushButtonPressed :: "'f env \<Rightarrow> 'f world \<Rightarrow> 'f world option" where
  "afterPushButtonPressed e w =
     (let w = upd (\<lambda>s. s\<lparr>after_pushButton_enabled := False\<rparr>) w
      in if os_type e \<noteq> OS_WINDOWS e then
           (let r = getText e 0;
                w = emit [GetText ''PassWord'' ''Please enter root password:''] w
            in if snd r then
                 (let w = emit [SudoCheck (fst r)] w;
                      answer = sudo_wait e 0 (fst r)
                  in case wrong_password_loop e 1 (fst r) (snd r) answer (trace w) of
                       None \<Rightarrow> None
                     | Some (passwd, ok, tr) \<Rightarrow>
                         (let w = w\<lparr>trace := tr\<rparr>
                          in if ok then Some (start_ShutDownThread (Some passwd) w)
                             else Some (after_checkBox_setChecked False w)))
               else Some (after_checkBox_setChecked False w))
         else Some (start_ShutDownThread None w))"

subsection \<open>The remaining methods\<close>

definition Key_Escape :: int where
  "Key_Escape = 0x01000000"

definition closeEvent :: "'f world \<Rightarrow> 'f world" where
  "closeEvent w =
     (let w = emit [SettingsSetValue ''ProgressWindow/size'' (window_size (window w)),
                    SettingsSetValue ''ProgressWindow/position'' (window_pos (window w)),
                    SettingsSync] w
      in upd (\<lambda>s. s\<lparr>window_visible := False\<rparr>) w)"

text \<open>\<open>self.close()\<close> delivers a close event to the window.\<close>

definition keyPressEvent :: "int \<Rightarrow> 'f world \<Rightarrow> 'f world" where
  "keyPressEvent key w = (if key = Key_Escape then closeEvent w else w)"

definition changeIcon :: "string \<Rightarrow> 'f world \<Rightarrow> 'f world" where
  "changeIcon icons w =
     (let icons = '':/'' @ icons @ ''/''
      in upd (\<lambda>s. s\<lparr>resume_icon := icons @ ''play'',
                     pause_icon := icons @ ''pause'',
                     stop_icon := icons @ ''stop''\<rparr>) w)"

subsection \<open>The constructor\<close>

fun lookup :: "(string \<times> 'v) list \<Rightarrow> string \<Rightarrow> 'v option" where
  "lookup [] k = None"
| "lookup ((k', v) # kvs) k = (if k' = k then Some v else lookup kvs k)"

text \<open>
  The lines that restore the speed limit. \<open>limit[-1]\<close> raises on the empty string and
  \<open>float\<close> raises on a prefix that is no number.
\<close>

definition restore_limit :: "'f env \<Rightarrow> string \<Rightarrow> 'f world \<Rightarrow> error + 'f world" where
  "restore_limit e limit w =
     (if limit \<noteq> ''0'' then
        (let limit_number = butlast limit
         in if limit = [] then Inl IndexError
            else (let limit_unit = last limit
                  in case float_of_str e limit_number of
                       None \<Rightarrow> Inl ValueError
                     | Some v \<Rightarrow>
                         (let w = limit_spinBox_setValue e v w;
                              w = (if limit_unit = CHR ''K''
                                   then after_comboBox_setCurrentIndex e 0 w
                                   else after_comboBox_setCurrentIndex e 1 w)
                          in Inr (limit_checkBox_setChecked True w))))
      else Inr w)"

text \<open>
  The constructor up to the data base query. \<open>ui\<close> is the world as \<open>super().__init__\<close>
  leaves it: the widgets of \<open>ProgressWindow_Ui\<close>, none of this class's slots connected
  yet.
\<close>

definition init_fields_and_locale :: "'f env \<Rightarrow> 'f world \<Rightarrow> string \<Rightarrow> 'f world" where
  "init_fields_and_locale e ui g =
     (let w = upd (\<lambda>s. s\<lparr>limit_checkBox_connected := False, after_checkBox_connected := False,
                          after_comboBox_connected := False, limit_comboBox_connected := False,
                          limit_spinBox_connected := False\<rparr>) ui;
          w = upd (\<lambda>s. s\<lparr>gid := g, status := None\<rparr>) w;
          w = upd (\<lambda>s. s\<lparr>download_progressBar := 0\<rparr>) w;
          w = upd (\<lambda>s. s\<lparr>limit_frame_enabled := False, limit_checkBox_connected := True\<rparr>) w;
          w = upd (\<lambda>s. s\<lparr>after_frame_enabled := False, after_checkBox_connected := True\<rparr>) w;
          locale = py_str (settings_locale e);
          w = emit [SetDefaultLocale locale] w;
          w = (if translator_load e ('':/translations/locales/ui_'' @ locale)
               then emit [InstallTranslator ('':/translations/locales/ui_'' @ locale)] w else w)
      in emit [SearchGidInAddLinkTable g] w)"

text \<open>The constructor after the restore: the last three connections, size and position.\<close>

definition init_connect_and_place :: "'f env \<Rightarrow> 'f world \<Rightarrow> 'f world" where
  "init_connect_and_place e w =
     (let w = upd (\<lambda>s. s\<lparr>after_comboBox_connected := True,
                          limit_comboBox_connected := True,
                          limit_spinBox_connected := True\<rparr>) w;
          size = (case settings_size e of None \<Rightarrow> (595, 274) | Some sz \<Rightarrow> sz);
          position = (case settings_position e of None \<Rightarrow> (300, 300) | Some p \<Rightarrow> p)
      in upd (\<lambda>s. s\<lparr>window_size := size, window_pos := position\<rparr>) w)"

definition ProgressWindow_init :: "'f env \<Rightarrow> 'f world \<Rightarrow> string \<Rightarrow> error + 'f world" where
  "ProgressWindow_init e ui g =
     (let w = init_fields_and_locale e ui g
      in case searchGidInAddLinkTable e g of
           None \<Rightarrow> Inl TypeError
         | Some add_link_dictionary \<Rightarrow>
             (case lookup add_link_dictionary ''limit_value'' of
                None \<Rightarrow> Inl KeyError
              | Some v \<Rightarrow>
                  (case restore_limit e (py_str v) w of
                     Inl err \<Rightarrow> Inl err
                   | Inr w \<Rightarrow> Inr (init_connect_and_place e w))))"

subsection \<open>Method calls and what happens between them\<close>

text \<open>
  A step is a call of one method of the class, a change the user makes to a widget (which
  runs the connected slot), or the main window writing \<open>status\<close>.
\<close>

datatype 'f action =
    Call_keyPressEvent int
  | Call_closeEvent
  | Call_resumePushButtonPressed
  | Call_pausePushButtonPressed
  | Call_stopPushButtonPressed
  | Call_limitCheckBoxToggled
  | Call_limitComboBoxChanged
  | Call_afterComboBoxChanged
  | Call_afterCheckBoxToggled
  | Call_afterPushButtonPressed
  | Call_limitPushButtonPressed
  | Call_changeIcon string
  | User_limit_checkBox bool
  | User_after_checkBox bool
  | User_limit_spinBox 'f
  | User_limit_comboBox string
  | User_after_comboBox int
  | Main_status "string option"

fun step :: "'f env \<Rightarrow> 'f action \<Rightarrow> 'f world \<Rightarrow> 'f world option" where
  "step e (Call_keyPressEvent k) w = Some (keyPressEvent k w)"
| "step e Call_closeEvent w = Some (closeEvent w)"
| "step e Call_resumePushButtonPressed w = Some (resumePushButtonPressed e w)"
| "step e Call_pausePushButtonPressed w = Some (pausePushButtonPressed e w)"
| "step e Call_stopPushButtonPressed w = Some (stopPushButtonPressed e w)"
| "step e Call_limitCheckBoxToggled w = Some (limitCheckBoxToggled w)"
| "step e Call_limitComboBoxChanged w = Some (limitComboBoxChanged w)"
| "step e Call_afterComboBoxChanged w = Some (afterComboBoxChanged w)"
| "step e Call_afterCheckBoxToggled w = Some (afterCheckBoxToggled w)"
| "step e Call_afterPushButtonPressed w = afterPushButtonPressed e w"
| "step e Call_limitPushButtonPressed w = Some (limitPushButtonPressed e w)"
| "step e (Call_changeIcon icons) w = Some (changeIcon icons w)"
| "step e (User_limit_checkBox b) w = Some (limit_checkBox_setChecked b w)"
| "step e (User_after_checkBox b) w = Some (after_checkBox_setChecked b w)"
| "step e (User_limit_spinBox v) w = Some (limit_spinBox_setValue e v w)"
| "step e (User_limit_comboBox t) w = Some (limit_comboBox_setCurrentText t w)"
| "step e (User_after_comboBox i) w = Some (after_comboBox_setCurrentIndex e i w)"
| "step e (Main_status st) w = Some (upd (\<lambda>s. s\<lparr>status := st\<rparr>) w)"

text \<open>A sequence of steps, each with the answers the collaborators give during it.\<close>

fun run :: "('f env \<times> 'f action) list \<Rightarrow> 'f world \<Rightarrow> 'f world option" where
  "run [] w = Some w"
| "run ((e, a) # rest) w = (case step e a w of None \<Rightarrow> None | Some w' \<Rightarrow> run rest w')"

subsection \<open>Vocabulary of the properties\<close>

text \<open>The events a call added to the trace.\<close>

definition issued :: "'f world \<Rightarrow> 'f world \<Rightarrow> event list" where
  "issued w w' = drop (length (trace w)) (trace w')"

fun is_db_write :: "event \<Rightarrow> bool" where
  "is_db_write (UpdateSingleTable d) = True"
| "is_db_write (UpdateAddLinkTable ds) = True"
| "is_db_write ev = False"

fun is_thread_start :: "event \<Rightarrow> bool" where
  "is_thread_start (ThreadStart t) = True"
| "is_thread_start ev = False"

fun is_dialog :: "event \<Rightarrow> bool" where
  "is_dialog (GetText title label) = True"
| "is_dialog (SudoCheck p) = True"
| "is_dialog ev = False"

text \<open>An event that names a download task names the task \<open>g\<close>.\<close>

fun targets_only :: "string \<Rightarrow> event \<Rightarrow> bool" where
  "targets_only g (DownloadUnpause g') = (g' = g)"
| "targets_only g (DownloadPause g') = (g' = g)"
| "targets_only g (DownloadStop g') = (g' = g)"
| "targets_only g (LimitSpeed g' v) = (g' = g)"
| "targets_only g (UpdateSingleTable d) = (lookup d ''gid'' = Some g)"
| "targets_only g (UpdateAddLinkTable ds) = list_all (\<lambda>d. lookup d ''gid'' = Some g) ds"
| "targets_only g (SearchGidInAddLinkTable g') = (g' = g)"
| "targets_only g (ThreadStart t) = (thread_gid t = g)"
| "targets_only g ev = True"

text \<open>
  The password dialogs of one call, numbered from 0: dialog \<open>n\<close> is rejected when the user
  confirms it and \<open>sudo\<close> exits with a status other than 0, accepted when the user confirms
  it and \<open>sudo\<close> exits with 0, cancelled when the user closes it.
\<close>

definition rejected :: "'f env \<Rightarrow> nat \<Rightarrow> bool" where
  "rejected e n = (snd (getText e n) \<and> sudo_wait e n (fst (getText e n)) \<noteq> 0)"

fun rejected_upto :: "'f env \<Rightarrow> nat \<Rightarrow> bool" where
  "rejected_upto e 0 = True"
| "rejected_upto e (Suc n) = (rejected_upto e n \<and> rejected e n)"

definition accepted_at :: "'f env \<Rightarrow> nat \<Rightarrow> bool" where
  "accepted_at e n =
     (rejected_upto e n \<and> snd (getText e n) \<and> sudo_wait e n (fst (getText e n)) = 0)"

definition cancelled_at :: "'f env \<Rightarrow> nat \<Rightarrow> bool" where
  "cancelled_at e n = (rejected_upto e n \<and> \<not> snd (getText e n))"

text \<open>The events of \<open>k\<close> confirmed retry dialogs, the first of them dialog \<open>n\<close>.\<close>

fun retry_events :: "'f env \<Rightarrow> nat \<Rightarrow> nat \<Rightarrow> event list" where
  "retry_events e n 0 = []"
| "retry_events e n (Suc k) =
     [GetText ''PassWord'' wrong_password_label, SudoCheck (fst (getText e n))]
       @ retry_events e (Suc n) k"

text \<open>
  The events of a call that ends with dialog \<open>n\<close> accepted, and of one that ends with
  dialog \<open>n\<close> cancelled.
\<close>

definition first_prompt :: event where
  "first_prompt = GetText ''PassWord'' ''Please enter root password:''"

definition accepted_events :: "'f env \<Rightarrow> nat \<Rightarrow> event list" where
  "accepted_events e n = first_prompt # SudoCheck (fst (getText e 0)) # retry_events e 1 n"

fun cancelled_events :: "'f env \<Rightarrow> nat \<Rightarrow> event list" where
  "cancelled_events e 0 = [first_prompt]"
| "cancelled_events e (Suc k) =
     first_prompt # SudoCheck (fst (getText e 0)) # retry_events e 1 k
       @ [GetText ''PassWord'' wrong_password_label]"

definition new_thread :: "'f world \<Rightarrow> string option \<Rightarrow> ShutDownThread" where
  "new_thread w password = \<lparr>thread_gid = gid (window w), thread_password = password\<rparr>"

definition after_pushButton_disabled :: "'f world \<Rightarrow> 'f ProgressWindow" where
  "after_pushButton_disabled w = (window w)\<lparr>after_pushButton_enabled := False\<rparr>"

text \<open>
  \<open>appended P w w'\<close>: the trace of \<open>w'\<close> is the trace of \<open>w\<close> followed by events that
  all satisfy \<open>P\<close>. \<open>quiet g\<close> holds of an event that names no task but \<open>g\<close> and starts no
  thread; \<open>quiet_call w w'\<close> says that going from \<open>w\<close> to \<open>w'\<close> kept the gid and the thread
  pool and added quiet events only.
\<close>

definition appended :: "(event \<Rightarrow> bool) \<Rightarrow> 'f world \<Rightarrow> 'f world \<Rightarrow> bool" where
  "appended P w w' = (take (length (trace w)) (trace w') = trace w \<and> list_all P (issued w w'))"

definition quiet :: "string \<Rightarrow> event \<Rightarrow> bool" where
  "quiet g ev = (targets_only g ev \<and> \<not> is_thread_start ev)"

definition quiet_call :: "'f world \<Rightarrow> 'f world \<Rightarrow> bool" where
  "quiet_call w w' =
     (gid (window w') = gid (window w) \<and> threadPool w' = threadPool w \<and>
      appended (quiet (gid (window w))) w w')"

subsection \<open>A concrete window and concrete collaborators\<close>

definition example_window :: "int ProgressWindow" where
  "example_window =
     \<lparr>gid = ''a1b2c3'', status = Some ''paused'', download_progressBar = 0,
      limit_frame_enabled = False, limit_pushButton_enabled = True,
      limit_checkBox_checked = False, limit_spinBox_value = 7,
      limit_comboBox_text = ''KiB/s'', after_frame_enabled = True,
      after_pushButton_enabled = True, after_checkBox_checked = True,
      after_comboBox_index = 0, limit_checkBox_connected = True,
      after_checkBox_connected = True, after_comboBox_connected = True,
      limit_comboBox_connected = True, limit_spinBox_connected = True,
      window_size = (595, 274), window_pos = (300, 300), window_visible = True,
      resume_icon = [], pause_icon = [], stop_icon = []\<rparr>"

definition example_world :: "int world" where
  "example_world = \<lparr>window = example_window, threadPool = [], trace = []\<rparr>"

text \<open>
  aria2 is down, the data base holds the limit \<open>5.0K\<close>, and the user types a wrong
  password twice before the right one.
\<close>

definition example_env :: "int env" where
  "example_env =
     \<lparr>os_type = ''Linux'', OS_WINDOWS = ''Windows'',
      downloadUnpause = (\<lambda>g. PyNone), downloadPause = (\<lambda>g. PyNone),
      downloadStop = (\<lambda>g. PyStr ''None''), aria2Version = PyStr ''did not respond'',
      translate = (\<lambda>context text. text),
      getText = (\<lambda>n. if n < 2 then (''guess'', True) else (''secret'', True)),
      sudo_wait = (\<lambda>n p. if p = ''secret'' then 0 else 1),
      float_of_str = (\<lambda>s. if s = ''5.0'' then Some 5
                          else if s = ''2048.0'' then Some 2048 else None),
      str_of_float = (\<lambda>v. str_int v @ ''.0''),
      limit_spinBox_holds = (\<lambda>v. if v < 0 then 0 else if 1023 < v then 1023 else v),
      after_comboBox_holds = (\<lambda>i. if 0 \<le> i \<and> i < 2 then i else - 1),
      searchGidInAddLinkTable = (\<lambda>g. Some [(''gid'', PyStr g), (''limit_value'', PyStr ''5.0K'')]),
      settings_locale = PyStr ''en_US'', translator_load = (\<lambda>path. False),
      settings_size = None, settings_position = None\<rparr>"

text \<open>The same, with a user who closes the second retry dialog.\<close>

definition cancelling_env :: "int env" where
  "cancelling_env = example_env\<lparr>getText := (\<lambda>n. if n < 2 then (''guess'', True) else ([], False))\<rparr>"

text \<open>The same, with a user who never types the right password and never gives up.\<close>

definition stubborn_env :: "int env" where
  "stubborn_env = example_env\<lparr>getText := (\<lambda>n. (''guess'', True))\<rparr>"

definition windows_env :: "int env" where
  "windows_env = example_env\<lparr>os_type := ''Windows''\<rparr>"

text \<open>
  The same, with the limit \<open>2048.0M\<close> in the data base, above the range of the spin box,
  and an \<open>after_comboBox\<close> that has one item only.
\<close>

definition narrow_env :: "int env" where
  "narrow_env =
     example_env\<lparr>searchGidInAddLinkTable :=
                   (\<lambda>g. Some [(''gid'', PyStr g), (''limit_value'', PyStr ''2048.0M'')]),
                 after_comboBox_holds := (\<lambda>i. if i = 0 then 0 else - 1)\<rparr>"

section \<open>Properties\<close>

subsection \<open>The password loop\<close>

lemma loop_exit_now:
  "wrong_password_loop e n passwd ok 0 tr = Some (passwd, ok, tr)"
  by (subst wrong_password_loop.simps) simp

lemma loop_rejected_step:
  assumes "answer \<noteq> 0" "snd (getText e n)"
  shows "wrong_password_loop e n passwd ok answer tr =
         wrong_password_loop e (Suc n) (fst (getText e n)) True (sudo_wait e n (fst (getText e n)))
           (tr @ [GetText ''PassWord'' wrong_password_label, SudoCheck (fst (getText e n))])"
  using assms by (subst wrong_password_loop.simps) (simp add: Let_def)

lemma loop_cancel_now:
  assumes "answer \<noteq> 0" "\<not> snd (getText e n)"
  shows "wrong_password_loop e n passwd ok answer tr =
         Some (fst (getText e n), False, tr @ [GetText ''PassWord'' wrong_password_label])"
  using assms by (subst wrong_password_loop.simps) (simp add: Let_def)

lemma loop_accepted:
  assumes "answer \<noteq> 0" "\<forall>i<k. rejected e (n + i)"
    "snd (getText e (n + k))" "sudo_wait e (n + k) (fst (getText e (n + k))) = 0"
  shows "wrong_password_loop e n passwd ok answer tr =
         Some (fst (getText e (n + k)), True, tr @ retry_events e n (Suc k))"
  using assms
proof (induction k arbitrary: n passwd ok answer tr)
  case 0
  then show ?case by (simp add: loop_rejected_step loop_exit_now)
next
  case (Suc k)
  have r: "rejected e n" using Suc.prems(2) by force
  have rest: "\<forall>i<k. rejected e (Suc n + i)" using Suc.prems(2) by force
  have "wrong_password_loop e n passwd ok answer tr =
        wrong_password_loop e (Suc n) (fst (getText e n)) True (sudo_wait e n (fst (getText e n)))
           (tr @ [GetText ''PassWord'' wrong_password_label, SudoCheck (fst (getText e n))])"
    using Suc.prems(1) r by (simp add: loop_rejected_step rejected_def)
  also have "\<dots> = Some (fst (getText e (Suc n + k)), True,
      (tr @ [GetText ''PassWord'' wrong_password_label, SudoCheck (fst (getText e n))])
        @ retry_events e (Suc n) (Suc k))"
    using r rest Suc.prems(3,4) by (intro Suc.IH) (simp_all add: rejected_def)
  finally show ?case by simp
qed

lemma loop_cancelled:
  assumes "answer \<noteq> 0" "\<forall>i<k. rejected e (n + i)" "\<not> snd (getText e (n + k))"
  shows "wrong_password_loop e n passwd ok answer tr =
         Some (fst (getText e (n + k)), False,
               tr @ retry_events e n k @ [GetText ''PassWord'' wrong_password_label])"
  using assms
proof (induction k arbitrary: n passwd ok answer tr)
  case 0
  then show ?case by (simp add: loop_cancel_now)
next
  case (Suc k)
  have r: "rejected e n" using Suc.prems(2) by force
  have rest: "\<forall>i<k. rejected e (Suc n + i)" using Suc.prems(2) by force
  have "wrong_password_loop e n passwd ok answer tr =
        wrong_password_loop e (Suc n) (fst (getText e n)) True (sudo_wait e n (fst (getText e n)))
           (tr @ [GetText ''PassWord'' wrong_password_label, SudoCheck (fst (getText e n))])"
    using Suc.prems(1) r by (simp add: loop_rejected_step rejected_def)
  also have "\<dots> = Some (fst (getText e (Suc n + k)), False,
      (tr @ [GetText ''PassWord'' wrong_password_label, SudoCheck (fst (getText e n))])
        @ retry_events e (Suc n) k @ [GetText ''PassWord'' wrong_password_label])"
    using r rest Suc.prems(3) by (intro Suc.IH) (simp_all add: rejected_def)
  finally show ?case by simp
qed

lemma loop_some_not_all_rejected:
  assumes "wrong_password_loop e n passwd ok answer tr = Some y"
  shows "answer \<noteq> 0 \<longrightarrow> \<not> (\<forall>i. rejected e (n + i))"
proof (rule wrong_password_loop.raw_induct
    [where P = "\<lambda>e n passwd ok answer tr y. answer \<noteq> 0 \<longrightarrow> \<not> (\<forall>i. rejected e (n + i))",
     OF _ assms])
  fix f :: "'a env \<Rightarrow> nat \<Rightarrow> string \<Rightarrow> bool \<Rightarrow> int \<Rightarrow> event list \<Rightarrow> (string \<times> bool \<times> event list) option"
  fix e n passwd ok answer tr y
  assume IH: "\<And>e n passwd ok answer tr y. f e n passwd ok answer tr = Some y \<Longrightarrow>
                answer \<noteq> 0 \<longrightarrow> \<not> (\<forall>i. rejected e (n + i))"
  assume body: "(if answer \<noteq> 0
      then let r = getText e n;
               tr = tr @ [GetText ''PassWord'' wrong_password_label]
           in if snd r
              then f e (Suc n) (fst r) (snd r) (sudo_wait e n (fst r)) (tr @ [SudoCheck (fst r)])
              else Some (fst r, False, tr)
      else Some (passwd, ok, tr)) = Some y"
  show "answer \<noteq> 0 \<longrightarrow> \<not> (\<forall>i. rejected e (n + i))"
  proof (intro impI notI)
    assume a: "answer \<noteq> 0" and all: "\<forall>i. rejected e (n + i)"
    from all have r: "rejected e n" by (metis add.right_neutral)
    from all have rest: "\<forall>i. rejected e (Suc n + i)" by (metis add_Suc_shift)
    from body a r have "f e (Suc n) (fst (getText e n)) (snd (getText e n))
        (sudo_wait e n (fst (getText e n)))
        ((tr @ [GetText ''PassWord'' wrong_password_label]) @ [SudoCheck (fst (getText e n))]) = Some y"
      by (simp add: Let_def rejected_def)
    from IH[OF this] r rest show False by (simp add: rejected_def)
  qed
qed

lemma loop_diverges:
  assumes "answer \<noteq> 0" "\<forall>i. rejected e (n + i)"
  shows "wrong_password_loop e n passwd ok answer tr = None"
  using assms loop_some_not_all_rejected by (cases "wrong_password_loop e n passwd ok answer tr") blast+


subsection \<open>The three ways a call of afterPushButtonPressed can go off Windows\<close>

lemma rejected_upto_iff: "rejected_upto e n \<longleftrightarrow> (\<forall>i<n. rejected e i)"
  by (induction n) (auto simp: less_Suc_eq)

lemma world_upd_eq:
  "w\<lparr>window := a, trace := t\<rparr> = \<lparr>window = a, threadPool = threadPool w, trace = t\<rparr>"
  by (cases w) simp

lemma after_windows:
  assumes "os_type e = OS_WINDOWS e"
  shows "afterPushButtonPressed e w =
         Some \<lparr>window = after_pushButton_disabled w,
               threadPool = threadPool w @ [new_thread w None],
               trace = trace w @ [ThreadStart (new_thread w None)]\<rparr>"
  using assms
  by (simp add: afterPushButtonPressed_def start_ShutDownThread_def Let_def emit_def upd_def
      new_thread_def after_pushButton_disabled_def)

lemma after_accepted:
  assumes "os_type e \<noteq> OS_WINDOWS e" "accepted_at e n"
  shows "afterPushButtonPressed e w =
         Some \<lparr>window = after_pushButton_disabled w,
               threadPool = threadPool w @ [new_thread w (Some (fst (getText e n)))],
               trace = trace w @ accepted_events e n
                         @ [ThreadStart (new_thread w (Some (fst (getText e n))))]\<rparr>"
proof (cases n)
  case 0
  with assms show ?thesis
    by (simp add: afterPushButtonPressed_def start_ShutDownThread_def Let_def emit_def upd_def
        new_thread_def after_pushButton_disabled_def accepted_at_def accepted_events_def
        first_prompt_def loop_exit_now)
next
  case (Suc k)
  from assms(2) Suc have r0: "snd (getText e 0)" "sudo_wait e 0 (fst (getText e 0)) \<noteq> 0"
    by (simp_all add: accepted_at_def rejected_upto_iff rejected_def)
  from assms(2) Suc have rest: "\<forall>i<k. rejected e (1 + i)"
    by (simp add: accepted_at_def rejected_upto_iff)
  from assms(2) Suc have fin: "snd (getText e (1 + k))"
    "sudo_wait e (1 + k) (fst (getText e (1 + k))) = 0"
    by (simp_all add: accepted_at_def)
  have loop: "wrong_password_loop e (Suc 0) p ok (sudo_wait e 0 (fst (getText e 0))) tr =
        Some (fst (getText e (1 + k)), True, tr @ retry_events e (Suc 0) (Suc k))" for p ok tr
    using loop_accepted[OF r0(2) rest fin] by simp
  show ?thesis using assms(1) r0 Suc
    by (simp add: afterPushButtonPressed_def start_ShutDownThread_def Let_def emit_def upd_def
        new_thread_def after_pushButton_disabled_def accepted_events_def
        first_prompt_def loop del: retry_events.simps)
qed

lemma after_cancelled:
  assumes "os_type e \<noteq> OS_WINDOWS e" "cancelled_at e n"
  shows "afterPushButtonPressed e w =
         Some (after_checkBox_setChecked False
                 \<lparr>window = after_pushButton_disabled w, threadPool = threadPool w,
                  trace = trace w @ cancelled_events e n\<rparr>)"
proof (cases n)
  case 0
  with assms show ?thesis
    by (simp add: afterPushButtonPressed_def Let_def emit_def upd_def
        after_pushButton_disabled_def cancelled_at_def first_prompt_def world_upd_eq)
next
  case (Suc k)
  from assms(2) Suc have r0: "snd (getText e 0)" "sudo_wait e 0 (fst (getText e 0)) \<noteq> 0"
    by (simp_all add: cancelled_at_def rejected_upto_iff rejected_def)
  from assms(2) Suc have rest: "\<forall>i<k. rejected e (1 + i)"
    by (simp add: cancelled_at_def rejected_upto_iff)
  from assms(2) Suc have fin: "\<not> snd (getText e (1 + k))"
    by (simp_all add: cancelled_at_def)
  have loop: "wrong_password_loop e (Suc 0) p ok (sudo_wait e 0 (fst (getText e 0))) tr =
        Some (fst (getText e (1 + k)), False,
              tr @ retry_events e (Suc 0) k @ [GetText ''PassWord'' wrong_password_label])" for p ok tr
    using loop_cancelled[OF r0(2) rest fin] by simp
  show ?thesis using assms(1) r0 Suc
    by (simp add: afterPushButtonPressed_def Let_def emit_def upd_def
        after_pushButton_disabled_def first_prompt_def loop world_upd_eq)
qed

lemma after_diverges:
  assumes "os_type e \<noteq> OS_WINDOWS e" "\<forall>n. rejected_upto e n"
  shows "afterPushButtonPressed e w = None"
proof -
  have all: "rejected e i" for i
    using assms(2) rejected_upto.simps(2) by blast
  have r0: "snd (getText e 0)" "sudo_wait e 0 (fst (getText e 0)) \<noteq> 0"
    using all[of 0] by (simp_all add: rejected_def)
  have "wrong_password_loop e (Suc 0) p ok (sudo_wait e 0 (fst (getText e 0))) tr = None" for p ok tr
    using loop_diverges[OF r0(2), of e 1] all by simp
  then show ?thesis using assms(1) r0
    by (simp add: afterPushButtonPressed_def Let_def)
qed

lemma dialogs_trichotomy:
  "(\<exists>n. accepted_at e n) \<or> (\<exists>n. cancelled_at e n) \<or> (\<forall>n. rejected_upto e n)"
proof (cases "\<forall>n. rejected_upto e n")
  case True
  then show ?thesis by simp
next
  case False
  then obtain m where m: "\<not> rejected_upto e m" by blast
  define k where "k = (LEAST m. \<not> rejected_upto e m)"
  have nk: "\<not> rejected_upto e k" unfolding k_def using m by (rule LeastI)
  then obtain j where j: "k = Suc j" by (cases k) simp_all
  have "rejected_upto e j"
    using not_less_Least[of j "\<lambda>m. \<not> rejected_upto e m"] j unfolding k_def by auto
  with nk j have "accepted_at e j \<or> cancelled_at e j"
    by (auto simp: accepted_at_def cancelled_at_def rejected_def)
  then show ?thesis by blast
qed

section \<open>The claims\<close>

subsection \<open>Resume and pause\<close>

text \<open>
  C1. \<open>resumePushButtonPressed\<close> calls \<open>download.downloadUnpause(self.gid)\<close>, once and
  first, when \<open>status\<close> is \<open>'paused'\<close>; in every other status it leaves the window, the
  thread pool and the trace as they were. \<open>pausePushButtonPressed\<close> does the same with
  \<open>download.downloadPause(self.gid)\<close> and the status \<open>'downloading'\<close>.
\<close>

theorem resume_pause_exactly_in_status:
  "(if status (window w) = Some ''paused''
    then \<exists>rest. trace (resumePushButtonPressed e w) =
                   trace w @ DownloadUnpause (gid (window w)) # rest \<and>
                 (\<forall>g. DownloadUnpause g \<notin> set rest)
    else resumePushButtonPressed e w = w) \<and>
   (if status (window w) = Some ''downloading''
    then \<exists>rest. trace (pausePushButtonPressed e w) =
                   trace w @ DownloadPause (gid (window w)) # rest \<and>
                 (\<forall>g. DownloadPause g \<notin> set rest)
    else pausePushButtonPressed e w = w)"
  by (simp add: resumePushButtonPressed_def pausePushButtonPressed_def emit_def Let_def)

theorem resume_pause_exactly_in_status_witness:
  "hd (trace (resumePushButtonPressed example_env example_world)) = DownloadUnpause ''a1b2c3'' \<and>
   pausePushButtonPressed example_env example_world = example_world"
  using resume_pause_exactly_in_status [of example_world example_env]
  by (auto simp: example_world_def example_window_def)

subsection \<open>Stop\<close>

text \<open>
  C2. Whatever the status, \<open>stopPushButtonPressed\<close> first passes
  \<open>{'gid': self.gid, 'shutdown': 'canceled'}\<close> to \<open>updateSingleTable\<close> of the temporary data
  base and then calls \<open>download.downloadStop\<close> for the same gid; nothing it does afterwards
  is a data base write or a second stop.
\<close>

theorem stop_writes_canceled_before_downloadStop:
  "\<exists>rest. trace (stopPushButtonPressed e w) =
            trace w @ UpdateSingleTable [(''gid'', gid (window w)), (''shutdown'', ''canceled'')]
                    # DownloadStop (gid (window w)) # rest \<and>
          (\<forall>ev\<in>set rest. \<not> is_db_write ev \<and> (\<forall>g. ev \<noteq> DownloadStop g))"
  by (simp add: stopPushButtonPressed_def emit_def Let_def)

theorem stop_writes_canceled_before_downloadStop_witness:
  "take 2 (trace (stopPushButtonPressed example_env example_world)) =
     [UpdateSingleTable [(''gid'', ''a1b2c3''), (''shutdown'', ''canceled'')],
      DownloadStop ''a1b2c3'']"
  using stop_writes_canceled_before_downloadStop [of example_env example_world]
  by (auto simp: example_world_def example_window_def)

subsection \<open>Speed limit\<close>

text \<open>
  C3. \<open>limitPushButtonPressed\<close> issues exactly one request. Its value is \<open>str\<close> of the spin
  box's value followed by \<open>K\<close> when the combo box shows \<open>KiB/s\<close> and by \<open>M\<close> otherwise; the
  request is \<open>download.limitSpeed\<close> when the status is not \<open>'scheduled'\<close> and an update of the
  add-link table when it is. Unchecking the limit check box issues the same one request
  with the value \<open>'0'\<close>.
\<close>

theorem limit_request_follows_status:
  "trace (limitPushButtonPressed e w) =
     trace w @
       [let limit_value = str_of_float e (limit_spinBox_value (window w)) @
              (if limit_comboBox_text (window w) = ''KiB/s'' then ''K'' else ''M'')
        in if status (window w) \<noteq> Some ''scheduled''
           then LimitSpeed (gid (window w)) limit_value
           else UpdateAddLinkTable [[(''gid'', gid (window w)), (''limit_value'', limit_value)]]] \<and>
   (\<not> limit_checkBox_checked (window w) \<longrightarrow>
      trace (limitCheckBoxToggled w) =
        trace w @
          [if status (window w) \<noteq> Some ''scheduled''
           then LimitSpeed (gid (window w)) ''0''
           else UpdateAddLinkTable [[(''gid'', gid (window w)), (''limit_value'', ''0'')]]]) \<and>
   (limit_checkBox_checked (window w) \<and> limit_checkBox_connected (window w) \<longrightarrow>
      trace (limit_checkBox_setChecked False w) =
        trace w @
          [if status (window w) \<noteq> Some ''scheduled''
           then LimitSpeed (gid (window w)) ''0''
           else UpdateAddLinkTable [[(''gid'', gid (window w)), (''limit_value'', ''0'')]]])"
  by (simp add: limitPushButtonPressed_def limitCheckBoxToggled_def limit_checkBox_setChecked_def
      emit_def upd_def Let_def)

theorem limit_request_follows_status_witness:
  "trace (limitPushButtonPressed example_env example_world) = [LimitSpeed ''a1b2c3'' ''7.0K''] \<and>
   trace (limitCheckBoxToggled example_world) = [LimitSpeed ''a1b2c3'' ''0'']"
  using limit_request_follows_status [of example_env example_world]
  by (simp add: example_world_def example_window_def example_env_def str_int_def digit_char_def)

subsection \<open>The shutdown check box\<close>

text \<open>
  C8. With the check box unchecked, \<open>afterCheckBoxToggled\<close> disables \<open>after_frame\<close> and
  passes \<open>{'gid': self.gid, 'shutdown': 'canceled'}\<close> to \<open>updateSingleTable\<close> of the temporary
  data base; with the check box checked it enables \<open>after_frame\<close> and does nothing else.
\<close>

theorem after_checkBox_toggled_effect:
  "(\<not> after_checkBox_checked (window w) \<longrightarrow>
      afterCheckBoxToggled w =
        \<lparr>window = (window w)\<lparr>after_frame_enabled := False\<rparr>, threadPool = threadPool w,
         trace = trace w @ [UpdateSingleTable [(''gid'', gid (window w)), (''shutdown'', ''canceled'')]]\<rparr>) \<and>
   (after_checkBox_checked (window w) \<longrightarrow>
      afterCheckBoxToggled w =
        \<lparr>window = (window w)\<lparr>after_frame_enabled := True\<rparr>, threadPool = threadPool w,
         trace = trace w\<rparr>)"
  by (cases w) (simp add: afterCheckBoxToggled_def emit_def upd_def Let_def)

theorem after_checkBox_toggled_effect_witness:
  "afterCheckBoxToggled example_world = example_world \<and>
   trace (afterCheckBoxToggled (upd (\<lambda>s. s\<lparr>after_checkBox_checked := False\<rparr>) example_world)) =
     [UpdateSingleTable [(''gid'', ''a1b2c3''), (''shutdown'', ''canceled'')]]"
  using after_checkBox_toggled_effect [of example_world]
    after_checkBox_toggled_effect [of "upd (\<lambda>s. s\<lparr>after_checkBox_checked := False\<rparr>) example_world"]
  by (simp add: example_world_def example_window_def upd_def)

subsection \<open>When aria2 does not answer\<close>

text \<open>
  C6. After a falsy answer to the unpause or pause request the handler asks for aria2's
  version, and it calls \<open>aria2Disconnected\<close> of the main window exactly when the version
  query returned \<open>'did not respond'\<close>; in that case, and only then, the pause handler also
  calls \<open>download.downloadStop\<close>, which the resume handler never does. The stop handler
  asks for the version exactly when \<open>download.downloadStop\<close> returned the string
  \<open>'None'\<close>; the value \<open>None\<close> does not trigger it.
\<close>

theorem aria2_availability_check:
  "(status (window w) = Some ''paused'' \<and> \<not> truthy (downloadUnpause e (gid (window w))) \<longrightarrow>
      (\<exists>rest. trace (resumePushButtonPressed e w) =
                 trace w @ DownloadUnpause (gid (window w)) # Aria2Version # rest \<and>
               (Aria2Disconnected \<in> set rest \<longleftrightarrow> aria2Version e = PyStr ''did not respond''))) \<and>
   (\<forall>g. DownloadStop g \<notin> set (issued w (resumePushButtonPressed e w))) \<and>
   (status (window w) = Some ''downloading'' \<and> \<not> truthy (downloadPause e (gid (window w))) \<longrightarrow>
      (\<exists>rest. trace (pausePushButtonPressed e w) =
                 trace w @ DownloadPause (gid (window w)) # Aria2Version # rest \<and>
               (Aria2Disconnected \<in> set rest \<longleftrightarrow> aria2Version e = PyStr ''did not respond'') \<and>
               (DownloadStop (gid (window w)) \<in> set rest \<longleftrightarrow>
                  aria2Version e = PyStr ''did not respond''))) \<and>
   (Aria2Version \<in> set (issued w (stopPushButtonPressed e w)) \<longleftrightarrow>
      downloadStop e (gid (window w)) = PyStr ''None'') \<and>
   (Aria2Disconnected \<in> set (issued w (stopPushButtonPressed e w)) \<longleftrightarrow>
      downloadStop e (gid (window w)) = PyStr ''None'' \<and>
      aria2Version e = PyStr ''did not respond'') \<and>
   (downloadStop e (gid (window w)) = PyNone \<longrightarrow>
      Aria2Version \<notin> set (issued w (stopPushButtonPressed e w)))"
  by (simp add: resumePushButtonPressed_def pausePushButtonPressed_def stopPushButtonPressed_def
      issued_def emit_def Let_def)



theorem aria2_availability_check_witness:
  "Aria2Disconnected \<in> set (trace (resumePushButtonPressed example_env example_world)) \<and>
   DownloadStop ''a1b2c3'' \<in> set (trace (pausePushButtonPressed example_env
       (upd (\<lambda>s. s\<lparr>status := Some ''downloading''\<rparr>) example_world))) \<and>
   Aria2Version \<in> set (trace (stopPushButtonPressed example_env example_world)) \<and>
   Aria2Version \<notin> set (trace (stopPushButtonPressed
       (example_env\<lparr>downloadStop := (\<lambda>g. PyNone)\<rparr>) example_world))"
proof -
  have paused: "status (window example_world) = Some ''paused'' \<and>
      \<not> truthy (downloadUnpause example_env (gid (window example_world)))"
    by (simp add: example_world_def example_window_def example_env_def)
  have downloading:
    "status (window (upd (\<lambda>s. s\<lparr>status := Some ''downloading''\<rparr>) example_world)) = Some ''downloading'' \<and>
     \<not> truthy (downloadPause example_env
         (gid (window (upd (\<lambda>s. s\<lparr>status := Some ''downloading''\<rparr>) example_world))))"
    by (simp add: example_world_def example_window_def example_env_def upd_def)
  have ver: "aria2Version example_env = PyStr ''did not respond''"
    by (simp add: example_env_def)
  have stop1: "downloadStop example_env (gid (window example_world)) = PyStr ''None''"
    by (simp add: example_env_def)
  have stop2: "downloadStop (example_env\<lparr>downloadStop := (\<lambda>g. PyNone)\<rparr>) (gid (window example_world)) = PyNone"
    by simp
  have t0: "trace example_world = []" "gid (window example_world) = ''a1b2c3''"
    "trace (upd (\<lambda>s. s\<lparr>status := Some ''downloading''\<rparr>) example_world) = []"
    "gid (window (upd (\<lambda>s. s\<lparr>status := Some ''downloading''\<rparr>) example_world)) = ''a1b2c3''"
    by (simp_all add: example_world_def example_window_def upd_def)
  show ?thesis
    using aria2_availability_check [of example_world example_env]
      aria2_availability_check [of "upd (\<lambda>s. s\<lparr>status := Some ''downloading''\<rparr>) example_world" example_env]
      aria2_availability_check [of example_world "example_env\<lparr>downloadStop := (\<lambda>g. PyNone)\<rparr>"]
      paused downloading ver stop1 stop2
    by (auto simp: issued_def t0)
qed

subsection \<open>The constructor restores the speed limit\<close>

lemma limit_spinBox_setValue_fields:
  "limit_spinBox_value (window (limit_spinBox_setValue e v w)) = limit_spinBox_holds e v"
  "limit_comboBox_text (window (limit_spinBox_setValue e v w)) = limit_comboBox_text (window w)"
  by (simp_all add: limit_spinBox_setValue_def limitComboBoxChanged_def upd_def Let_def)

lemma after_comboBox_setCurrentIndex_fields:
  "after_comboBox_index (window (after_comboBox_setCurrentIndex e i w)) = after_comboBox_holds e i"
  "limit_spinBox_value (window (after_comboBox_setCurrentIndex e i w)) = limit_spinBox_value (window w)"
  "limit_comboBox_text (window (after_comboBox_setCurrentIndex e i w)) = limit_comboBox_text (window w)"
  by (simp_all add: after_comboBox_setCurrentIndex_def afterComboBoxChanged_def upd_def Let_def)

lemma limitCheckBoxToggled_fields:
  "limit_checkBox_checked (window (limitCheckBoxToggled w)) = limit_checkBox_checked (window w)"
  "after_comboBox_index (window (limitCheckBoxToggled w)) = after_comboBox_index (window w)"
  "limit_spinBox_value (window (limitCheckBoxToggled w)) = limit_spinBox_value (window w)"
  "limit_comboBox_text (window (limitCheckBoxToggled w)) = limit_comboBox_text (window w)"
  by (simp_all add: limitCheckBoxToggled_def upd_def emit_def Let_def)

lemma limit_checkBox_setChecked_fields:
  "limit_checkBox_checked (window (limit_checkBox_setChecked b w)) = b"
  "after_comboBox_index (window (limit_checkBox_setChecked b w)) = after_comboBox_index (window w)"
  "limit_spinBox_value (window (limit_checkBox_setChecked b w)) = limit_spinBox_value (window w)"
  "limit_comboBox_text (window (limit_checkBox_setChecked b w)) = limit_comboBox_text (window w)"
  by (simp_all add: limit_checkBox_setChecked_def limitCheckBoxToggled_fields Let_def)
    (simp_all add: upd_def)

lemma restore_limit_fields:
  assumes "limit \<noteq> ''0''" "limit \<noteq> []" "float_of_str e (butlast limit) = Some x"
  shows "\<exists>w'. restore_limit e limit w = Inr w' \<and>
              limit_spinBox_value (window w') = limit_spinBox_holds e x \<and>
              limit_checkBox_checked (window w') \<and>
              after_comboBox_index (window w') =
                after_comboBox_holds e (if last limit = CHR ''K'' then 0 else 1) \<and>
              limit_comboBox_text (window w') = limit_comboBox_text (window w)"
  using assms
  by (simp add: restore_limit_def Let_def limit_checkBox_setChecked_fields
      after_comboBox_setCurrentIndex_fields limit_spinBox_setValue_fields)

text \<open>
  C9. When the \<open>limit_value\<close> stored for the gid is not \<open>'0'\<close> and its prefix (all but the
  last character) is a number, the constructor succeeds; that number is what it passes to
  \<open>setValue\<close> of \<open>limit_spinBox\<close>, so the spin box holds what the widget makes of it;
  \<open>limit_checkBox\<close> is checked; what it passes to \<open>setCurrentIndex\<close> of \<open>after_comboBox\<close> is
  0 when the last character is \<open>K\<close> and 1 otherwise, so that box holds what the widget
  makes of this index; and \<open>limit_comboBox\<close> shows what it showed before.
\<close>

theorem constructor_restores_limit:
  assumes "searchGidInAddLinkTable e g = Some d"
    and "lookup d ''limit_value'' = Some v"
    and "py_str v \<noteq> ''0''"
    and "py_str v \<noteq> []"
    and "float_of_str e (butlast (py_str v)) = Some x"
  shows "\<exists>w. ProgressWindow_init e ui g = Inr w \<and>
             limit_spinBox_value (window w) = limit_spinBox_holds e x \<and>
             limit_checkBox_checked (window w) \<and>
             after_comboBox_index (window w) =
               after_comboBox_holds e (if last (py_str v) = CHR ''K'' then 0 else 1) \<and>
             limit_comboBox_text (window w) = limit_comboBox_text (window ui)"
proof -
  define w0 where "w0 = init_fields_and_locale e ui g"
  have text0: "limit_comboBox_text (window w0) = limit_comboBox_text (window ui)"
    by (simp add: w0_def init_fields_and_locale_def Let_def upd_def emit_def)
  obtain w1 where w1: "restore_limit e (py_str v) w0 = Inr w1"
    "limit_spinBox_value (window w1) = limit_spinBox_holds e x"
    "limit_checkBox_checked (window w1)"
    "after_comboBox_index (window w1) =
       after_comboBox_holds e (if last (py_str v) = CHR ''K'' then 0 else 1)"
    "limit_comboBox_text (window w1) = limit_comboBox_text (window w0)"
    using restore_limit_fields[OF assms(3,4,5), of w0] by blast
  have "ProgressWindow_init e ui g = Inr (init_connect_and_place e w1)"
    unfolding ProgressWindow_init_def Let_def using assms(1,2) w1(1) by (simp add: w0_def)
  with w1 text0 show ?thesis by (simp add: init_connect_and_place_def Let_def upd_def)
qed

theorem constructor_restores_limit_witness:
  "(\<exists>w. ProgressWindow_init example_env example_world ''a1b2c3'' = Inr w \<and>
        limit_spinBox_value (window w) = 5 \<and> limit_checkBox_checked (window w) \<and>
        after_comboBox_index (window w) = 0 \<and> limit_comboBox_text (window w) = ''KiB/s'') \<and>
   (\<exists>w. ProgressWindow_init narrow_env example_world ''a1b2c3'' = Inr w \<and>
        limit_spinBox_value (window w) = 1023 \<and> limit_checkBox_checked (window w) \<and>
        after_comboBox_index (window w) = - 1 \<and> limit_comboBox_text (window w) = ''KiB/s'')"
proof (rule conjI)
  show "\<exists>w. ProgressWindow_init example_env example_world ''a1b2c3'' = Inr w \<and>
        limit_spinBox_value (window w) = 5 \<and> limit_checkBox_checked (window w) \<and>
        after_comboBox_index (window w) = 0 \<and> limit_comboBox_text (window w) = ''KiB/s''"
    using constructor_restores_limit [of example_env "''a1b2c3''"
        "[(''gid'', PyStr ''a1b2c3''), (''limit_value'', PyStr ''5.0K'')]" "PyStr ''5.0K''" 5
        example_world]
    by (simp add: example_env_def example_world_def example_window_def)
next
  show "\<exists>w. ProgressWindow_init narrow_env example_world ''a1b2c3'' = Inr w \<and>
        limit_spinBox_value (window w) = 1023 \<and> limit_checkBox_checked (window w) \<and>
        after_comboBox_index (window w) = - 1 \<and> limit_comboBox_text (window w) = ''KiB/s''"
    using constructor_restores_limit [of narrow_env "''a1b2c3''"
        "[(''gid'', PyStr ''a1b2c3''), (''limit_value'', PyStr ''2048.0M'')]" "PyStr ''2048.0M''"
        2048 example_world]
    by (simp add: narrow_env_def example_env_def example_world_def example_window_def)
qed

subsection \<open>Calls that keep the gid and the thread pool\<close>

lemma appended_iff: "appended P w w' \<longleftrightarrow> (\<exists>evs. trace w' = trace w @ evs \<and> list_all P evs)"
proof
  assume "appended P w w'"
  then have "trace w' = trace w @ issued w w'" "list_all P (issued w w')"
    unfolding appended_def issued_def by (metis append_take_drop_id, simp)
  then show "\<exists>evs. trace w' = trace w @ evs \<and> list_all P evs" by blast
next
  assume "\<exists>evs. trace w' = trace w @ evs \<and> list_all P evs"
  then show "appended P w w'" by (auto simp: appended_def issued_def)
qed

lemma appended_refl: "appended P w w"
  by (simp add: appended_iff)

lemma appended_trans: "appended P w w' \<Longrightarrow> appended P w' w'' \<Longrightarrow> appended P w w''"
  by (auto simp: appended_iff)

lemma appended_mono: "appended P w w' \<Longrightarrow> (\<And>ev. P ev \<Longrightarrow> Q ev) \<Longrightarrow> appended Q w w'"
  by (auto simp: appended_iff list_all_iff)

lemma issued_append: "trace w' = trace w @ evs \<Longrightarrow> issued w w' = evs"
  by (simp add: issued_def)

lemma quiet_call_refl: "quiet_call w w"
  by (simp add: quiet_call_def appended_refl)

lemma quiet_call_trans: "quiet_call w w' \<Longrightarrow> quiet_call w' w'' \<Longrightarrow> quiet_call w w''"
  unfolding quiet_call_def using appended_trans by fastforce

lemma quiet_call_upd: "gid (f (window w)) = gid (window w) \<Longrightarrow> quiet_call w (upd f w)"
  by (simp add: quiet_call_def appended_iff upd_def)

lemma quiet_resume: "quiet_call w (resumePushButtonPressed e w)"
  by (simp add: resumePushButtonPressed_def quiet_call_def appended_iff emit_def Let_def quiet_def)

lemma quiet_pause: "quiet_call w (pausePushButtonPressed e w)"
  by (simp add: pausePushButtonPressed_def quiet_call_def appended_iff emit_def Let_def quiet_def)

lemma quiet_stop: "quiet_call w (stopPushButtonPressed e w)"
  by (simp add: stopPushButtonPressed_def quiet_call_def appended_iff emit_def Let_def quiet_def)

lemma quiet_limitCheckBoxToggled: "quiet_call w (limitCheckBoxToggled w)"
  by (simp add: limitCheckBoxToggled_def quiet_call_def appended_iff emit_def upd_def Let_def quiet_def)

lemma quiet_limitComboBoxChanged: "quiet_call w (limitComboBoxChanged w)"
  by (simp add: limitComboBoxChanged_def quiet_call_upd)

lemma quiet_afterComboBoxChanged: "quiet_call w (afterComboBoxChanged w)"
  by (simp add: afterComboBoxChanged_def quiet_call_upd)

lemma quiet_afterCheckBoxToggled: "quiet_call w (afterCheckBoxToggled w)"
  by (simp add: afterCheckBoxToggled_def quiet_call_def appended_iff emit_def upd_def Let_def quiet_def)

lemma quiet_limitPushButtonPressed: "quiet_call w (limitPushButtonPressed e w)"
  by (simp add: limitPushButtonPressed_def quiet_call_def appended_iff emit_def upd_def Let_def quiet_def)

lemma quiet_closeEvent: "quiet_call w (closeEvent w)"
  by (simp add: closeEvent_def quiet_call_def appended_iff emit_def upd_def Let_def quiet_def)

lemma quiet_keyPressEvent: "quiet_call w (keyPressEvent k w)"
  by (simp add: keyPressEvent_def quiet_closeEvent quiet_call_refl)

lemma quiet_changeIcon: "quiet_call w (changeIcon icons w)"
  by (simp add: changeIcon_def quiet_call_upd Let_def)

lemma quiet_limit_checkBox_setChecked: "quiet_call w (limit_checkBox_setChecked b w)"
proof -
  have "quiet_call w (upd (\<lambda>s. s\<lparr>limit_checkBox_checked := b\<rparr>) w)"
    by (simp add: quiet_call_upd)
  then show ?thesis
    unfolding limit_checkBox_setChecked_def Let_def
    using quiet_call_trans[OF _ quiet_limitCheckBoxToggled] by (auto simp: quiet_call_refl)
qed

lemma quiet_after_checkBox_setChecked: "quiet_call w (after_checkBox_setChecked b w)"
proof -
  have "quiet_call w (upd (\<lambda>s. s\<lparr>after_checkBox_checked := b\<rparr>) w)"
    by (simp add: quiet_call_upd)
  then show ?thesis
    unfolding after_checkBox_setChecked_def Let_def
    using quiet_call_trans[OF _ quiet_afterCheckBoxToggled] by (auto simp: quiet_call_refl)
qed

lemma quiet_limit_spinBox_setValue: "quiet_call w (limit_spinBox_setValue e v w)"
proof -
  have "quiet_call w (upd (\<lambda>s. s\<lparr>limit_spinBox_value := limit_spinBox_holds e v\<rparr>) w)"
    by (simp add: quiet_call_upd)
  then show ?thesis
    unfolding limit_spinBox_setValue_def Let_def
    using quiet_call_trans[OF _ quiet_limitComboBoxChanged] by (auto simp: quiet_call_refl)
qed

lemma quiet_limit_comboBox_setCurrentText: "quiet_call w (limit_comboBox_setCurrentText t w)"
proof -
  have "quiet_call w (upd (\<lambda>s. s\<lparr>limit_comboBox_text := t\<rparr>) w)"
    by (simp add: quiet_call_upd)
  then show ?thesis
    unfolding limit_comboBox_setCurrentText_def Let_def
    using quiet_call_trans[OF _ quiet_limitComboBoxChanged] by (auto simp: quiet_call_refl)
qed

lemma quiet_after_comboBox_setCurrentIndex: "quiet_call w (after_comboBox_setCurrentIndex e i w)"
proof -
  have "quiet_call w (upd (\<lambda>s. s\<lparr>after_comboBox_index := after_comboBox_holds e i\<rparr>) w)"
    by (simp add: quiet_call_upd)
  then show ?thesis
    unfolding after_comboBox_setCurrentIndex_def Let_def
    using quiet_call_trans[OF _ quiet_afterComboBoxChanged] by (auto simp: quiet_call_refl)
qed

lemma quiet_step:
  assumes "a \<noteq> Call_afterPushButtonPressed" "step e a w = Some w'"
  shows "quiet_call w w'"
  using assms
  by (cases a)
    (auto simp: quiet_resume quiet_pause quiet_stop quiet_limitCheckBoxToggled
      quiet_limitComboBoxChanged quiet_afterComboBoxChanged quiet_afterCheckBoxToggled
      quiet_limitPushButtonPressed quiet_closeEvent quiet_keyPressEvent quiet_changeIcon
      quiet_limit_checkBox_setChecked quiet_after_checkBox_setChecked
      quiet_limit_spinBox_setValue quiet_limit_comboBox_setCurrentText
      quiet_after_comboBox_setCurrentIndex quiet_call_upd)

subsection \<open>The events of the password dialogs\<close>

lemma is_dialog_retry_events: "list_all is_dialog (retry_events e n k)"
  by (induction k arbitrary: n) simp_all

lemma is_dialog_accepted_events: "list_all is_dialog (accepted_events e n)"
  by (simp add: accepted_events_def first_prompt_def is_dialog_retry_events)

lemma is_dialog_cancelled_events: "list_all is_dialog (cancelled_events e n)"
  by (cases n) (simp_all add: first_prompt_def is_dialog_retry_events)

lemma is_dialog_quiet: "is_dialog ev \<Longrightarrow> quiet g ev"
  by (cases ev) (simp_all add: quiet_def)

lemma is_dialog_no_thread: "list_all is_dialog evs \<Longrightarrow> filter is_thread_start evs = []"
proof (induction evs)
  case Nil
  then show ?case by simp
next
  case (Cons ev evs)
  then show ?case by (cases ev) simp_all
qed

lemma quiet_no_thread: "list_all (quiet g) evs \<Longrightarrow> filter is_thread_start evs = []"
  by (induction evs) (simp_all add: quiet_def)

lemma retry_events_snoc:
  "retry_events e n (Suc k) =
     retry_events e n k @ [GetText ''PassWord'' wrong_password_label, SudoCheck (fst (getText e (n + k)))]"
  by (induction k arbitrary: n) simp_all

lemma accepted_events_last:
  "\<exists>pre. accepted_events e n = pre @ [SudoCheck (fst (getText e n))] \<and> list_all is_dialog pre"
proof (cases n)
  case 0
  then show ?thesis by (simp add: accepted_events_def first_prompt_def)
next
  case (Suc k)
  have "accepted_events e n =
      (first_prompt # SudoCheck (fst (getText e 0)) # retry_events e 1 k
         @ [GetText ''PassWord'' wrong_password_label]) @ [SudoCheck (fst (getText e n))]"
    unfolding accepted_events_def Suc retry_events_snoc by simp
  moreover have "list_all is_dialog (first_prompt # SudoCheck (fst (getText e 0)) # retry_events e 1 k
         @ [GetText ''PassWord'' wrong_password_label])"
    by (simp add: first_prompt_def is_dialog_retry_events)
  ultimately show ?thesis by blast
qed

lemma after_checkBox_setChecked_checked:
  "after_checkBox_checked (window (after_checkBox_setChecked b w)) = b"
  by (simp add: after_checkBox_setChecked_def afterCheckBoxToggled_def upd_def emit_def Let_def)

text \<open>The world a cancelled call ends in, seen from the world it started in.\<close>

lemma cancelled_world_quiet:
  "quiet_call w (after_checkBox_setChecked False
      \<lparr>window = after_pushButton_disabled w, threadPool = threadPool w,
       trace = trace w @ cancelled_events e n\<rparr>)"
proof -
  have "list_all (quiet (gid (window w))) (cancelled_events e n)"
    using is_dialog_cancelled_events[of e n] is_dialog_quiet by (auto simp: list_all_iff)
  then have "quiet_call w \<lparr>window = after_pushButton_disabled w, threadPool = threadPool w,
       trace = trace w @ cancelled_events e n\<rparr>"
    by (simp add: quiet_call_def appended_iff after_pushButton_disabled_def)
  then show ?thesis
    using quiet_call_trans quiet_after_checkBox_setChecked by blast
qed

lemma quiet_call_threads:
  assumes "quiet_call w w'"
  shows "threadPool w' = threadPool w" "filter is_thread_start (issued w w') = []"
proof -
  from assms show "threadPool w' = threadPool w" by (simp add: quiet_call_def)
  from assms obtain evs where "trace w' = trace w @ evs" "list_all (quiet (gid (window w))) evs"
    by (auto simp: quiet_call_def appended_iff)
  then show "filter is_thread_start (issued w w') = []"
    using quiet_no_thread by (simp add: issued_append)
qed

lemma quiet_call_targets:
  assumes "quiet_call w w'"
  shows "gid (window w') = gid (window w)" "appended (targets_only (gid (window w))) w w'"
  using assms appended_mono[of "quiet (gid (window w))" w w' "targets_only (gid (window w))"]
  by (simp_all add: quiet_call_def quiet_def)

lemma accepted_not_cancelled:
  assumes "accepted_at e n"
  shows "\<not> cancelled_at e m"
proof
  assume c: "cancelled_at e m"
  consider "m < n" | "m = n" | "n < m" by linarith
  then show False
  proof cases
    case 1
    with assms have "rejected e m" by (simp add: accepted_at_def rejected_upto_iff)
    with c show False by (simp add: cancelled_at_def rejected_def)
  next
    case 2
    with assms c show False by (simp add: accepted_at_def cancelled_at_def)
  next
    case 3
    with c have "rejected e n" by (simp add: cancelled_at_def rejected_upto_iff)
    with assms show False by (simp add: accepted_at_def rejected_def)
  qed
qed

lemma example_not_windows: "os_type example_env \<noteq> OS_WINDOWS example_env"
  by (simp add: example_env_def)

lemma example_accepted: "accepted_at example_env 2"
  by (simp add: accepted_at_def rejected_def example_env_def numeral_2_eq_2)

lemma cancelling_not_windows: "os_type cancelling_env \<noteq> OS_WINDOWS cancelling_env"
  by (simp add: cancelling_env_def example_env_def)

lemma cancelling_cancelled: "cancelled_at cancelling_env 2"
  by (simp add: cancelled_at_def rejected_def cancelling_env_def example_env_def numeral_2_eq_2)

subsection \<open>Shutdown after download: who gets a thread\<close>

text \<open>
  C7. Off Windows: when dialog \<open>n\<close> is the first whose password \<open>sudo -S\<close> accepts (exit
  status 0), the call returns with one new thread in the pool, carrying that password, and
  the thread's start is the event right after that \<open>sudo\<close> check; when dialog \<open>n\<close> (the
  first prompt or a retry prompt) is cancelled, the call returns with the pool unchanged,
  no thread started and \<open>after_checkBox\<close> unchecked; and a call that returns with a thread
  started had a password accepted.
\<close>

theorem shutdown_thread_needs_accepted_password:
  assumes "os_type e \<noteq> OS_WINDOWS e"
  shows
   "(accepted_at e n \<longrightarrow>
       (\<exists>w' pre. afterPushButtonPressed e w = Some w' \<and>
          threadPool w' = threadPool w @ [new_thread w (Some (fst (getText e n)))] \<and>
          trace w' = trace w @ pre @ [SudoCheck (fst (getText e n)),
                                      ThreadStart (new_thread w (Some (fst (getText e n))))] \<and>
          list_all is_dialog pre \<and>
          sudo_wait e n (fst (getText e n)) = 0)) \<and>
    (cancelled_at e n \<longrightarrow>
       (\<exists>w'. afterPushButtonPressed e w = Some w' \<and>
          threadPool w' = threadPool w \<and>
          filter is_thread_start (issued w w') = [] \<and>
          \<not> after_checkBox_checked (window w'))) \<and>
    (afterPushButtonPressed e w = Some w'' \<and>
       (threadPool w'' \<noteq> threadPool w \<or> filter is_thread_start (issued w w'') \<noteq> []) \<longrightarrow>
       (\<exists>m. accepted_at e m))"
proof (intro conjI impI)
  assume acc: "accepted_at e n"
  obtain pre where pre: "accepted_events e n = pre @ [SudoCheck (fst (getText e n))]"
    "list_all is_dialog pre"
    using accepted_events_last by blast
  show "\<exists>w' pre. afterPushButtonPressed e w = Some w' \<and>
          threadPool w' = threadPool w @ [new_thread w (Some (fst (getText e n)))] \<and>
          trace w' = trace w @ pre @ [SudoCheck (fst (getText e n)),
                                      ThreadStart (new_thread w (Some (fst (getText e n))))] \<and>
          list_all is_dialog pre \<and>
          sudo_wait e n (fst (getText e n)) = 0"
    using after_accepted[OF assms acc, of w] pre acc by (simp add: accepted_at_def)
next
  assume c: "cancelled_at e n"
  let ?w' = "after_checkBox_setChecked False
      \<lparr>window = after_pushButton_disabled w, threadPool = threadPool w,
       trace = trace w @ cancelled_events e n\<rparr>"
  have "afterPushButtonPressed e w = Some ?w'" using after_cancelled[OF assms c] .
  moreover have "threadPool ?w' = threadPool w" "filter is_thread_start (issued w ?w') = []"
    using quiet_call_threads[OF cancelled_world_quiet] by blast+
  moreover have "\<not> after_checkBox_checked (window ?w')"
    by (simp add: after_checkBox_setChecked_checked)
  ultimately show "\<exists>w'. afterPushButtonPressed e w = Some w' \<and>
          threadPool w' = threadPool w \<and>
          filter is_thread_start (issued w w') = [] \<and>
          \<not> after_checkBox_checked (window w')"
    by blast
next
  assume a: "afterPushButtonPressed e w = Some w'' \<and>
       (threadPool w'' \<noteq> threadPool w \<or> filter is_thread_start (issued w w'') \<noteq> [])"
  show "\<exists>m. accepted_at e m"
  proof (rule ccontr)
    assume no: "\<nexists>m. accepted_at e m"
    from dialogs_trichotomy[of e] no
    consider k where "cancelled_at e k" | "\<forall>n. rejected_upto e n" by blast
    then show False
    proof cases
      case 1
      from after_cancelled[OF assms 1, of w] a
      have "w'' = after_checkBox_setChecked False
          \<lparr>window = after_pushButton_disabled w, threadPool = threadPool w,
           trace = trace w @ cancelled_events e k\<rparr>" by simp
      with quiet_call_threads[OF cancelled_world_quiet, of w e k] a show False by simp
    next
      case 2
      from after_diverges[OF assms 2, of w] a show False by simp
    qed
  qed
qed

theorem shutdown_thread_needs_accepted_password_witness:
  "(\<exists>w'. afterPushButtonPressed example_env example_world = Some w' \<and>
         threadPool w' = [\<lparr>thread_gid = ''a1b2c3'', thread_password = Some ''secret''\<rparr>]) \<and>
   (\<exists>w'. afterPushButtonPressed cancelling_env example_world = Some w' \<and>
         threadPool w' = [] \<and> \<not> after_checkBox_checked (window w'))"
proof -
  have f: "fst (getText example_env 2) = ''secret''" "threadPool example_world = []"
    "new_thread example_world (Some ''secret'') =
       \<lparr>thread_gid = ''a1b2c3'', thread_password = Some ''secret''\<rparr>"
    by (simp_all add: example_env_def example_world_def example_window_def new_thread_def)
  show ?thesis
    using shutdown_thread_needs_accepted_password [OF example_not_windows, of 2 example_world]
      shutdown_thread_needs_accepted_password [OF cancelling_not_windows, of 2 example_world]
      example_accepted cancelling_cancelled f
    by auto
qed

subsection \<open>Shutdown after download: does the call return\<close>

lemma stubborn_rejected: "rejected stubborn_env n"
  by (simp add: rejected_def stubborn_env_def example_env_def)

lemma stubborn_rejected_upto: "rejected_upto stubborn_env n"
  by (induction n) (simp_all add: stubborn_rejected)

lemma stubborn_not_windows: "os_type stubborn_env \<noteq> OS_WINDOWS stubborn_env"
  by (simp add: stubborn_env_def example_env_def)

text \<open>
  C10, as stated, fails: every dialog returns and every \<open>sudo\<close> check exits, but the user
  confirms a rejected password each time, and the call never returns.
\<close>

theorem stubborn_user_never_returns:
  "afterPushButtonPressed stubborn_env example_world = None"
  using after_diverges[OF stubborn_not_windows] stubborn_rejected_upto by blast

lemma loop_returns_iff:
  "(\<exists>r. wrong_password_loop e n passwd ok answer tr = Some r) \<longleftrightarrow>
     answer = 0 \<or> (\<exists>k. (\<forall>i<k. rejected e (n + i)) \<and> \<not> rejected e (n + k))"
proof (cases "answer = 0")
  case True
  then show ?thesis by (simp add: loop_exit_now)
next
  case False
  show ?thesis
  proof
    assume "\<exists>r. wrong_password_loop e n passwd ok answer tr = Some r"
    then have "\<not> (\<forall>i. rejected e (n + i))"
      using loop_some_not_all_rejected False by blast
    then obtain j where j: "\<not> rejected e (n + j)" by blast
    define k where "k = (LEAST j. \<not> rejected e (n + j))"
    have "\<not> rejected e (n + k)" unfolding k_def using j by (rule LeastI)
    moreover have "\<forall>i<k. rejected e (n + i)"
      unfolding k_def using not_less_Least by blast
    ultimately show "answer = 0 \<or> (\<exists>k. (\<forall>i<k. rejected e (n + i)) \<and> \<not> rejected e (n + k))"
      by blast
  next
    assume "answer = 0 \<or> (\<exists>k. (\<forall>i<k. rejected e (n + i)) \<and> \<not> rejected e (n + k))"
    with False obtain k where k: "\<forall>i<k. rejected e (n + i)" "\<not> rejected e (n + k)" by blast
    show "\<exists>r. wrong_password_loop e n passwd ok answer tr = Some r"
    proof (cases "snd (getText e (n + k))")
      case True
      with k(2) have "sudo_wait e (n + k) (fst (getText e (n + k))) = 0"
        by (simp add: rejected_def)
      from loop_accepted[OF False k(1) True this] show ?thesis by blast
    next
      case no: False
      from loop_cancelled[OF False k(1) no] show ?thesis by blast
    qed
  qed
qed

text \<open>
  C10, amended. \<open>afterPushButtonPressed\<close> returns exactly when it runs on Windows or some
  dialog, all dialogs before it confirmed with rejected passwords, is either confirmed with
  a password \<open>sudo\<close> accepts or cancelled. The retry loop returns exactly when it is entered
  with exit status 0 or reaches a dialog that is not rejected, that is, one that is
  cancelled or whose \<open>sudo\<close> check exits with 0.
\<close>

theorem shutdown_request_returns_iff_decided:
  "((\<exists>w'. afterPushButtonPressed e w = Some w') \<longleftrightarrow>
      os_type e = OS_WINDOWS e \<or> (\<exists>n. accepted_at e n) \<or> (\<exists>n. cancelled_at e n)) \<and>
   ((\<exists>r. wrong_password_loop e n passwd ok answer tr = Some r) \<longleftrightarrow>
      answer = 0 \<or> (\<exists>k. (\<forall>i<k. rejected e (n + i)) \<and> \<not> rejected e (n + k)))"
proof (rule conjI)
  show "(\<exists>w'. afterPushButtonPressed e w = Some w') \<longleftrightarrow>
      os_type e = OS_WINDOWS e \<or> (\<exists>n. accepted_at e n) \<or> (\<exists>n. cancelled_at e n)"
  proof (cases "os_type e = OS_WINDOWS e")
    case True
    then show ?thesis by (simp add: after_windows)
  next
    case False
    show ?thesis
    proof
      assume "\<exists>w'. afterPushButtonPressed e w = Some w'"
      then have "\<not> (\<forall>n. rejected_upto e n)"
      proof (intro notI)
        assume ex: "\<exists>w'. afterPushButtonPressed e w = Some w'" and all: "\<forall>n. rejected_upto e n"
        from after_diverges[OF False all, of w] ex show False by simp
      qed
      then show "os_type e = OS_WINDOWS e \<or> (\<exists>n. accepted_at e n) \<or> (\<exists>n. cancelled_at e n)"
        using dialogs_trichotomy[of e] by blast
    next
      assume "os_type e = OS_WINDOWS e \<or> (\<exists>n. accepted_at e n) \<or> (\<exists>n. cancelled_at e n)"
      with False consider n where "accepted_at e n" | n where "cancelled_at e n" by blast
      then show "\<exists>w'. afterPushButtonPressed e w = Some w'"
      proof cases
        case 1
        from after_accepted[OF False 1, of w] show ?thesis by blast
      next
        case 2
        from after_cancelled[OF False 2, of w] show ?thesis by blast
      qed
    qed
  qed
next
  show "(\<exists>r. wrong_password_loop e n passwd ok answer tr = Some r) \<longleftrightarrow>
      answer = 0 \<or> (\<exists>k. (\<forall>i<k. rejected e (n + i)) \<and> \<not> rejected e (n + k))"
    by (rule loop_returns_iff)
qed

theorem shutdown_request_returns_iff_decided_witness:
  "afterPushButtonPressed example_env example_world \<noteq> None \<and>
   afterPushButtonPressed cancelling_env example_world \<noteq> None \<and>
   afterPushButtonPressed windows_env example_world \<noteq> None \<and>
   wrong_password_loop example_env 1 ''guess'' True 1 [] \<noteq> None"
proof -
  have w: "os_type windows_env = OS_WINDOWS windows_env"
    by (simp add: windows_env_def example_env_def)
  have l: "(\<forall>i<Suc 0. rejected example_env (1 + i)) \<and> \<not> rejected example_env (1 + Suc 0)"
    by (simp add: rejected_def example_env_def)
  have "\<exists>w'. afterPushButtonPressed example_env example_world = Some w'"
    using shutdown_request_returns_iff_decided [THEN conjunct1, of example_env example_world]
      example_accepted by blast
  moreover have "\<exists>w'. afterPushButtonPressed cancelling_env example_world = Some w'"
    using shutdown_request_returns_iff_decided [THEN conjunct1, of cancelling_env example_world]
      cancelling_cancelled by blast
  moreover have "\<exists>w'. afterPushButtonPressed windows_env example_world = Some w'"
    using shutdown_request_returns_iff_decided [THEN conjunct1, of windows_env example_world]
      w by blast
  moreover have "\<exists>r. wrong_password_loop example_env 1 ''guess'' True 1 [] = Some r"
    using shutdown_request_returns_iff_decided
      [THEN conjunct2, of example_env 1 "''guess''" True 1 "[]"] l by blast
  ultimately show ?thesis by auto
qed

subsection \<open>The gid and the thread pool over the life of the window\<close>

lemma quiet_restore_limit:
  assumes "restore_limit e limit w = Inr w'"
  shows "quiet_call w w'"
proof (cases "limit = ''0''")
  case True
  with assms show ?thesis by (simp add: restore_limit_def quiet_call_refl)
next
  case False
  with assms obtain v where v: "float_of_str e (butlast limit) = Some v" and ne: "limit \<noteq> []"
    by (auto simp: restore_limit_def Let_def split: if_splits option.splits)
  define w1 where "w1 = limit_spinBox_setValue e v w"
  define w2 where "w2 = (if last limit = CHR ''K'' then after_comboBox_setCurrentIndex e 0 w1
                         else after_comboBox_setCurrentIndex e 1 w1)"
  have "w' = limit_checkBox_setChecked True w2"
    using assms False v ne by (auto simp: restore_limit_def Let_def w1_def w2_def)
  moreover have "quiet_call w w1" by (simp add: w1_def quiet_limit_spinBox_setValue)
  moreover have "quiet_call w1 w2" by (simp add: w2_def quiet_after_comboBox_setCurrentIndex)
  moreover have "quiet_call w2 (limit_checkBox_setChecked True w2)"
    by (rule quiet_limit_checkBox_setChecked)
  ultimately show ?thesis using quiet_call_trans by blast
qed

lemma init_fields_and_locale_frame:
  "gid (window (init_fields_and_locale e ui g)) = g"
  "threadPool (init_fields_and_locale e ui g) = threadPool ui"
  "appended (quiet g) ui (init_fields_and_locale e ui g)"
  by (simp_all add: init_fields_and_locale_def appended_iff emit_def upd_def Let_def quiet_def)

lemma quiet_init_connect_and_place: "quiet_call w (init_connect_and_place e w)"
  by (simp add: init_connect_and_place_def quiet_call_def appended_iff upd_def Let_def)

lemma ProgressWindow_init_frame:
  assumes "ProgressWindow_init e ui g = Inr w0"
  shows "gid (window w0) = g" "threadPool w0 = threadPool ui" "appended (quiet g) ui w0"
proof -
  define w1 where "w1 = init_fields_and_locale e ui g"
  from assms obtain limit w2 where w2: "restore_limit e limit w1 = Inr w2"
    "w0 = init_connect_and_place e w2"
    by (auto simp: ProgressWindow_init_def Let_def w1_def split: option.splits sum.splits)
  have q: "quiet_call w1 w0"
    using quiet_restore_limit[OF w2(1)] quiet_init_connect_and_place[of w2 e] w2(2)
      quiet_call_trans by blast
  have g1: "gid (window w1) = g" and t1: "threadPool w1 = threadPool ui"
    and a1: "appended (quiet g) ui w1"
    by (simp_all add: w1_def init_fields_and_locale_frame)
  from q g1 show "gid (window w0) = g" by (simp add: quiet_call_def)
  from q t1 show "threadPool w0 = threadPool ui" by (simp add: quiet_call_def)
  from q g1 have "appended (quiet g) w1 w0" by (simp add: quiet_call_def)
  with a1 show "appended (quiet g) ui w0" by (rule appended_trans)
qed

lemma appended_threads:
  assumes "appended (quiet g) w w'"
  shows "filter is_thread_start (issued w w') = []"
  using assms quiet_no_thread by (auto simp: appended_def)

text \<open>What a call of afterPushButtonPressed that returns has done.\<close>

lemma after_returned_cases:
  assumes "afterPushButtonPressed e w = Some w'"
  shows "(\<exists>password evs. list_all is_dialog evs \<and>
            w' = \<lparr>window = after_pushButton_disabled w,
                  threadPool = threadPool w @ [new_thread w password],
                  trace = trace w @ evs @ [ThreadStart (new_thread w password)]\<rparr> \<and>
            (os_type e = OS_WINDOWS e \<or> (\<exists>n. accepted_at e n))) \<or>
         (quiet_call w w' \<and> os_type e \<noteq> OS_WINDOWS e \<and> (\<exists>n. cancelled_at e n))"
proof (cases "os_type e = OS_WINDOWS e")
  case True
  from after_windows[OF True, of w] assms
  have "w' = \<lparr>window = after_pushButton_disabled w,
              threadPool = threadPool w @ [new_thread w None],
              trace = trace w @ [] @ [ThreadStart (new_thread w None)]\<rparr>" by simp
  moreover have "list_all is_dialog []" by simp
  ultimately show ?thesis using True by blast
next
  case False
  from dialogs_trichotomy[of e]
  consider n where "accepted_at e n" | n where "cancelled_at e n" | "\<forall>n. rejected_upto e n"
    by blast
  then show ?thesis
  proof cases
    case 1
    from after_accepted[OF False 1, of w] assms
    have "w' = \<lparr>window = after_pushButton_disabled w,
               threadPool = threadPool w @ [new_thread w (Some (fst (getText e n)))],
               trace = trace w @ accepted_events e n
                         @ [ThreadStart (new_thread w (Some (fst (getText e n))))]\<rparr>" by simp
    with 1 is_dialog_accepted_events[of e n] show ?thesis by blast
  next
    case 2
    from after_cancelled[OF False 2, of w] assms cancelled_world_quiet[of w e n]
    have "quiet_call w w'" by simp
    with False 2 show ?thesis by blast
  next
    case 3
    from after_diverges[OF False 3, of w] assms show ?thesis by simp
  qed
qed

lemma after_frame:
  assumes "afterPushButtonPressed e w = Some w'"
  shows "gid (window w') = gid (window w)" "appended (targets_only (gid (window w))) w w'"
proof -
  from after_returned_cases[OF assms]
  consider (started) password evs where "list_all is_dialog evs"
      "w' = \<lparr>window = after_pushButton_disabled w,
             threadPool = threadPool w @ [new_thread w password],
             trace = trace w @ evs @ [ThreadStart (new_thread w password)]\<rparr>"
    | (cancelled) "quiet_call w w'"
    by blast
  then have "gid (window w') = gid (window w) \<and> appended (targets_only (gid (window w))) w w'"
  proof cases
    case started
    from started(1) have "list_all (targets_only (gid (window w))) evs"
      using is_dialog_quiet by (auto simp: list_all_iff quiet_def)
    with started(2) show ?thesis
      by (simp add: appended_iff after_pushButton_disabled_def new_thread_def)
  next
    case cancelled
    then show ?thesis using quiet_call_targets by blast
  qed
  then show "gid (window w') = gid (window w)" "appended (targets_only (gid (window w))) w w'"
    by simp_all
qed

lemma step_frame:
  assumes "step e a w = Some w'"
  shows "gid (window w') = gid (window w) \<and> appended (targets_only (gid (window w))) w w'"
proof (cases "a = Call_afterPushButtonPressed")
  case True
  with assms have "afterPushButtonPressed e w = Some w'" by simp
  from after_frame[OF this] show ?thesis by simp
next
  case False
  from quiet_step[OF False assms] quiet_call_targets show ?thesis by blast
qed

lemma run_frame:
  assumes "run steps w = Some w'"
  shows "gid (window w') = gid (window w) \<and> appended (targets_only (gid (window w))) w w'"
  using assms
proof (induction steps arbitrary: w)
  case Nil
  then show ?case by (simp add: appended_refl)
next
  case (Cons ea rest)
  obtain e a where ea: "ea = (e, a)" by (cases ea)
  with Cons.prems obtain w1 where w1: "step e a w = Some w1" "run rest w1 = Some w'"
    by (auto split: option.splits)
  from step_frame[OF w1(1)] Cons.IH[OF w1(2)] show ?case
    using appended_trans by fastforce
qed

lemma restore_limit_returns_iff:
  "(\<exists>w'. restore_limit e limit w = Inr w') \<longleftrightarrow>
     limit = ''0'' \<or> limit \<noteq> [] \<and> float_of_str e (butlast limit) \<noteq> None"
  by (auto simp: restore_limit_def Let_def split: option.splits)

lemma ProgressWindow_init_returns_iff:
  "(\<exists>w0. ProgressWindow_init e ui g = Inr w0) \<longleftrightarrow>
     (\<exists>d v. searchGidInAddLinkTable e g = Some d \<and> lookup d ''limit_value'' = Some v \<and>
            (py_str v = ''0'' \<or> py_str v \<noteq> [] \<and> float_of_str e (butlast (py_str v)) \<noteq> None))"
proof -
  have "(\<exists>w0. ProgressWindow_init e ui g = Inr w0) \<longleftrightarrow>
     (\<exists>d v. searchGidInAddLinkTable e g = Some d \<and> lookup d ''limit_value'' = Some v \<and>
            (\<exists>w'. restore_limit e (py_str v) (init_fields_and_locale e ui g) = Inr w'))"
    by (auto simp: ProgressWindow_init_def Let_def split: option.splits sum.splits)
  then show ?thesis by (simp add: restore_limit_returns_iff)
qed

lemma example_init_returns:
  "\<exists>w0. ProgressWindow_init example_env example_world ''a1b2c3'' = Inr w0"
proof -
  have "searchGidInAddLinkTable example_env ''a1b2c3'' =
          Some [(''gid'', PyStr ''a1b2c3''), (''limit_value'', PyStr ''5.0K'')]"
    by (simp add: example_env_def)
  moreover have "lookup [(''gid'', PyStr ''a1b2c3''), (''limit_value'', PyStr ''5.0K'')]
      ''limit_value'' = Some (PyStr ''5.0K'')"
    by simp
  moreover have "py_str (PyStr ''5.0K'') \<noteq> [] \<and>
      float_of_str example_env (butlast (py_str (PyStr ''5.0K''))) \<noteq> None"
    by (simp add: example_env_def)
  ultimately show ?thesis
    unfolding ProgressWindow_init_returns_iff by blast
qed

text \<open>
  C5. The constructor returns exactly when the data base has a \<open>limit_value\<close> for the gid
  that the restore can read, and then it has stored its argument in \<open>gid\<close>, whatever the
  field held before; no later step (a method call, a change the user makes to a widget,
  the main window writing the status) changes it; and every request to aria2, every data
  base call and every thread that the constructor or a step issues names this gid and no
  other.
\<close>

theorem gid_assigned_once_and_targeted:
  "((\<exists>w1. ProgressWindow_init e ui g = Inr w1) \<longleftrightarrow>
      (\<exists>d v. searchGidInAddLinkTable e g = Some d \<and> lookup d ''limit_value'' = Some v \<and>
             (py_str v = ''0'' \<or>
              py_str v \<noteq> [] \<and> float_of_str e (butlast (py_str v)) \<noteq> None))) \<and>
   (ProgressWindow_init e ui g = Inr w0 \<longrightarrow>
      gid (window w0) = g \<and> appended (targets_only g) ui w0) \<and>
   (run steps w = Some w' \<longrightarrow>
      gid (window w') = gid (window w) \<and> appended (targets_only (gid (window w))) w w')"
proof (intro conjI impI)
  show "(\<exists>w1. ProgressWindow_init e ui g = Inr w1) \<longleftrightarrow>
      (\<exists>d v. searchGidInAddLinkTable e g = Some d \<and> lookup d ''limit_value'' = Some v \<and>
             (py_str v = ''0'' \<or>
              py_str v \<noteq> [] \<and> float_of_str e (butlast (py_str v)) \<noteq> None))"
    by (rule ProgressWindow_init_returns_iff)
next
  assume i: "ProgressWindow_init e ui g = Inr w0"
  from ProgressWindow_init_frame(1)[OF i] show "gid (window w0) = g" .
  from ProgressWindow_init_frame(3)[OF i] show "appended (targets_only g) ui w0"
    by (rule appended_mono) (simp add: quiet_def)
next
  assume r: "run steps w = Some w'"
  from run_frame[OF r] show "gid (window w') = gid (window w)" by simp
  from run_frame[OF r] show "appended (targets_only (gid (window w))) w w'" by simp
qed

theorem gid_assigned_once_and_targeted_witness:
  "gid (window example_world) \<noteq> ''other'' \<and>
   (\<exists>w0. ProgressWindow_init example_env example_world ''other'' = Inr w0 \<and>
          gid (window w0) = ''other'' \<and>
          list_all (targets_only ''other'') (trace w0)) \<and>
   (\<exists>w'. run [(example_env, Call_stopPushButtonPressed), (example_env, Main_status (Some ''scheduled'')),
              (example_env, Call_limitPushButtonPressed)] example_world = Some w' \<and>
          gid (window w') = ''a1b2c3'' \<and> list_all (targets_only ''a1b2c3'') (trace w'))"
proof -
  have s: "searchGidInAddLinkTable example_env ''other'' =
          Some [(''gid'', PyStr ''other''), (''limit_value'', PyStr ''5.0K'')] \<and>
      lookup [(''gid'', PyStr ''other''), (''limit_value'', PyStr ''5.0K'')] ''limit_value'' =
          Some (PyStr ''5.0K'') \<and>
      (py_str (PyStr ''5.0K'') = ''0'' \<or>
       py_str (PyStr ''5.0K'') \<noteq> [] \<and>
       float_of_str example_env (butlast (py_str (PyStr ''5.0K''))) \<noteq> None)"
    by (simp add: example_env_def)
  have "\<exists>w1. ProgressWindow_init example_env example_world ''other'' = Inr w1"
    using gid_assigned_once_and_targeted [THEN conjunct1, of example_env example_world "''other''"] s
    by blast
  then obtain w0 where w0: "ProgressWindow_init example_env example_world ''other'' = Inr w0"
    by blast
  obtain w' where w': "run [(example_env, Call_stopPushButtonPressed),
      (example_env, Main_status (Some ''scheduled'')),
      (example_env, Call_limitPushButtonPressed)] example_world = Some w'"
    by simp
  have g: "gid (window example_world) = ''a1b2c3''" "trace example_world = []"
    by (simp_all add: example_world_def example_window_def)
  from gid_assigned_once_and_targeted [THEN conjunct2, of example_env example_world "''other''" w0
      "[(example_env, Call_stopPushButtonPressed), (example_env, Main_status (Some ''scheduled'')),
        (example_env, Call_limitPushButtonPressed)]" example_world w'] w0 w' g
  show ?thesis by (simp add: appended_def issued_def)
qed

text \<open>
  C4. A call of \<open>afterPushButtonPressed\<close> that returns has appended at most one thread to
  the pool of the main window and started exactly the threads it appended: one on Windows;
  elsewhere one exactly when a password was accepted by \<open>sudo\<close> and none exactly when a
  dialog was cancelled. No other step, and not the constructor, touches the pool or starts
  a thread. In each of the three cases named the call does return.
\<close>

theorem one_thread_per_shutdown_request:
  "(afterPushButtonPressed e w = Some w' \<longrightarrow>
      (\<exists>ts. length ts \<le> 1 \<and> threadPool w' = threadPool w @ ts \<and>
            filter is_thread_start (issued w w') = map ThreadStart ts \<and>
            (os_type e = OS_WINDOWS e \<longrightarrow> length ts = 1) \<and>
            (os_type e \<noteq> OS_WINDOWS e \<longrightarrow>
               (length ts = 1 \<longleftrightarrow> (\<exists>n. accepted_at e n)) \<and>
               (ts = [] \<longleftrightarrow> (\<exists>n. cancelled_at e n))))) \<and>
   (a \<noteq> Call_afterPushButtonPressed \<and> step e a w = Some w'' \<longrightarrow>
      threadPool w'' = threadPool w \<and> filter is_thread_start (issued w w'') = []) \<and>
   (ProgressWindow_init e ui g = Inr w0 \<longrightarrow>
      threadPool w0 = threadPool ui \<and> filter is_thread_start (issued ui w0) = []) \<and>
   (os_type e = OS_WINDOWS e \<or> (\<exists>n. accepted_at e n) \<or> (\<exists>n. cancelled_at e n) \<longrightarrow>
      (\<exists>w1. afterPushButtonPressed e w = Some w1))"
proof (intro conjI impI)
  assume r: "afterPushButtonPressed e w = Some w'"
  from after_returned_cases[OF r]
  consider (started) password evs where "list_all is_dialog evs"
      "w' = \<lparr>window = after_pushButton_disabled w,
             threadPool = threadPool w @ [new_thread w password],
             trace = trace w @ evs @ [ThreadStart (new_thread w password)]\<rparr>"
      "os_type e = OS_WINDOWS e \<or> (\<exists>n. accepted_at e n)"
    | (cancelled) "quiet_call w w'" "os_type e \<noteq> OS_WINDOWS e" "\<exists>n. cancelled_at e n"
    by blast
  then show "\<exists>ts. length ts \<le> 1 \<and> threadPool w' = threadPool w @ ts \<and>
            filter is_thread_start (issued w w') = map ThreadStart ts \<and>
            (os_type e = OS_WINDOWS e \<longrightarrow> length ts = 1) \<and>
            (os_type e \<noteq> OS_WINDOWS e \<longrightarrow>
               (length ts = 1 \<longleftrightarrow> (\<exists>n. accepted_at e n)) \<and>
               (ts = [] \<longleftrightarrow> (\<exists>n. cancelled_at e n)))"
  proof cases
    case started
    have "issued w w' = evs @ [ThreadStart (new_thread w password)]"
      using started(2) by (simp add: issued_def)
    then have f: "filter is_thread_start (issued w w') = map ThreadStart [new_thread w password]"
      using is_dialog_no_thread[OF started(1)] by simp
    have "os_type e \<noteq> OS_WINDOWS e \<longrightarrow> (\<exists>n. accepted_at e n) \<and> \<not> (\<exists>n. cancelled_at e n)"
      using started(3) accepted_not_cancelled by blast
    with f started(2) show ?thesis
      by (intro exI[of _ "[new_thread w password]"]) simp
  next
    case cancelled
    have "\<not> (\<exists>n. accepted_at e n)" using cancelled(3) accepted_not_cancelled by blast
    with cancelled quiet_call_threads[OF cancelled(1)] show ?thesis
      by (intro exI[of _ "[]"]) simp
  qed
next
  assume s: "a \<noteq> Call_afterPushButtonPressed \<and> step e a w = Some w''"
  then have q: "quiet_call w w''" using quiet_step by blast
  from quiet_call_threads[OF q] show "threadPool w'' = threadPool w"
    "filter is_thread_start (issued w w'') = []" by simp_all
next
  assume i: "ProgressWindow_init e ui g = Inr w0"
  from ProgressWindow_init_frame(2)[OF i] show "threadPool w0 = threadPool ui" .
  from appended_threads[OF ProgressWindow_init_frame(3)[OF i]]
  show "filter is_thread_start (issued ui w0) = []" .
next
  assume d: "os_type e = OS_WINDOWS e \<or> (\<exists>n. accepted_at e n) \<or> (\<exists>n. cancelled_at e n)"
  show "\<exists>w1. afterPushButtonPressed e w = Some w1"
  proof (cases "os_type e = OS_WINDOWS e")
    case True
    from after_windows[OF True, of w] show ?thesis by blast
  next
    case False
    with d consider n where "accepted_at e n" | n where "cancelled_at e n" by blast
    then show ?thesis
    proof cases
      case 1
      from after_accepted[OF False 1, of w] show ?thesis by blast
    next
      case 2
      from after_cancelled[OF False 2, of w] show ?thesis by blast
    qed
  qed
qed

theorem one_thread_per_shutdown_request_witness:
  "(\<exists>w'. afterPushButtonPressed example_env example_world = Some w' \<and> length (threadPool w') = 1) \<and>
   (\<exists>w'. afterPushButtonPressed cancelling_env example_world = Some w' \<and> threadPool w' = []) \<and>
   (\<exists>w'. afterPushButtonPressed windows_env example_world = Some w' \<and> length (threadPool w') = 1) \<and>
   threadPool (stopPushButtonPressed example_env example_world) = [] \<and>
   (\<exists>w0. ProgressWindow_init example_env example_world ''a1b2c3'' = Inr w0 \<and> threadPool w0 = [])"
proof -
  have t: "threadPool example_world = []" by (simp add: example_world_def)
  have win: "os_type windows_env = OS_WINDOWS windows_env"
    by (simp add: windows_env_def example_env_def)
  obtain w1 where w1: "afterPushButtonPressed example_env example_world = Some w1"
    using after_accepted[OF example_not_windows example_accepted] by blast
  obtain w2 where w2: "afterPushButtonPressed cancelling_env example_world = Some w2"
    using after_cancelled[OF cancelling_not_windows cancelling_cancelled] by blast
  obtain w3 where w3: "afterPushButtonPressed windows_env example_world = Some w3"
    using after_windows[OF win] by blast
  obtain w0 where w0: "ProgressWindow_init example_env example_world ''a1b2c3'' = Inr w0"
    using example_init_returns by blast
  have s: "Call_stopPushButtonPressed \<noteq> Call_afterPushButtonPressed \<and>
      step example_env Call_stopPushButtonPressed example_world =
        Some (stopPushButtonPressed example_env example_world)"
    by simp
  have a: "\<exists>n. accepted_at example_env n" using example_accepted by blast
  have c: "\<exists>n. cancelled_at cancelling_env n" using cancelling_cancelled by blast
  have "length (threadPool w1) = 1"
    using one_thread_per_shutdown_request [THEN conjunct1, of example_env example_world w1]
      w1 a t example_not_windows by auto
  moreover have "threadPool w2 = []"
    using one_thread_per_shutdown_request [THEN conjunct1, of cancelling_env example_world w2]
      w2 c t cancelling_not_windows by auto
  moreover have "length (threadPool w3) = 1"
    using one_thread_per_shutdown_request [THEN conjunct1, of windows_env example_world w3]
      w3 win t by auto
  moreover have "threadPool (stopPushButtonPressed example_env example_world) = []"
    using one_thread_per_shutdown_request [THEN conjunct2, THEN conjunct1,
        of Call_stopPushButtonPressed example_env example_world
          "stopPushButtonPressed example_env example_world"] s t
    by simp
  moreover have "threadPool w0 = []"
    using one_thread_per_shutdown_request [THEN conjunct2, THEN conjunct2, THEN conjunct1,
        of example_env example_world "''a1b2c3''" w0] w0 t
    by simp
  ultimately show ?thesis using w1 w2 w3 w0 by simp
qed

end
